theory Spec2Isabelle
  imports Main
begin

section \<open>Strings\<close>

text \<open>
  A Python \<open>str\<close> is modelled as a \<open>string\<close> whose characters are the code points
  below 256.  The helpers below are the \<open>str\<close> methods the parser uses, on that range.
\<close>

definition lower_char :: "char \<Rightarrow> char" where
  \<comment> \<open>\<open>str.lower\<close> on one code point: A-Z and the Latin-1 capitals (all of
      0xC0..0xDE but the multiplication sign 0xD7) move up by 32.\<close>
  "lower_char c =
     (let n = (of_char c :: nat)
      in if (65 \<le> n \<and> n \<le> 90) \<or> (192 \<le> n \<and> n \<le> 222 \<and> n \<noteq> 215)
         then char_of (n + 32) else c)"

definition lower :: "string \<Rightarrow> string" where
  "lower s = map lower_char s"

fun startswith :: "string \<Rightarrow> string \<Rightarrow> bool" where
  \<comment> \<open>\<open>s.startswith(p)\<close>\<close>
  "startswith s [] = True"
| "startswith [] (p # ps) = False"
| "startswith (c # cs) (p # ps) = (c = p \<and> startswith cs ps)"

fun contains :: "string \<Rightarrow> string \<Rightarrow> bool" where
  \<comment> \<open>\<open>sub in s\<close>, written \<open>contains sub s\<close>\<close>
  "contains sub [] = (sub = [])"
| "contains sub (c # cs) = (startswith (c # cs) sub \<or> contains sub cs)"

definition endswith :: "string \<Rightarrow> string \<Rightarrow> bool" where
  \<comment> \<open>\<open>s.endswith(p)\<close>\<close>
  "endswith s p = startswith (rev s) (rev p)"

section \<open>Category classification\<close>

text \<open>
  \<open>QuizParser._determine_quiz_type(text, download_url)\<close>.  The optional download URL is
  an \<open>option\<close>; Python's truth test \<open>if download_url:\<close> holds for a present, non-empty
  string.  The categories are the source's own strings (\<open>data\<close> is the spec's
  tabular-data).
\<close>

definition determine_quiz_type :: "string \<Rightarrow> string option \<Rightarrow> string" where
  "determine_quiz_type text download_url =
     (let text_lower = lower text;
          by_keyword =
            (if contains ''api'' text_lower \<or> contains ''endpoint'' text_lower
             then ''api''
             else if list_ex (\<lambda>word. contains word text_lower)
                       [''chart'', ''plot'', ''graph'', ''visualiz'']
             then ''visualization''
             else if list_ex (\<lambda>word. contains word text_lower)
                       [''sum'', ''average'', ''count'', ''filter'', ''sort'', ''aggregate'']
             then ''data''
             else if list_ex (\<lambda>word. contains word text_lower)
                       [''scrape'', ''extract'', ''website'', ''page'']
             then ''scraping''
             else ''general'')
      in case download_url of
           None \<Rightarrow> by_keyword
         | Some d \<Rightarrow>
             if d \<noteq> [] then
               if contains ''.pdf'' (lower d) then ''pdf''
               else if list_ex (\<lambda>ext. contains ext (lower d)) [''.csv'', ''.xlsx'', ''.json'']
               then ''data''
               else by_keyword
             else by_keyword)"

section \<open>Regular-expression search\<close>

text \<open>
  The patterns of the parser are sequences of single-character tests, each taken once,
  optionally (\<open>?\<close>), greedily repeated (\<open>*\<close>, \<open>+\<close>) or lazily repeated (\<open>*?\<close>), with
  group parentheses and the end anchor \<open>$\<close>.  \<open>mseq\<close> is Python's backtracking matcher on
  such a sequence at a fixed start: the alternatives are tried in the order of the
  \<open>re\<close> module (a greedy item first takes one more character, a lazy one first takes none),
  and the first complete match is returned, as the trace of the characters consumed with
  the group boundaries in it.
\<close>

definition is_space :: "char \<Rightarrow> bool" where
  \<comment> \<open>\<open>\s\<close> and \<open>str.isspace\<close> on code points below 256\<close>
  "is_space c =
     (let n = (of_char c :: nat)
      in (9 \<le> n \<and> n \<le> 13) \<or> (28 \<le> n \<and> n \<le> 32) \<or> n = 133 \<or> n = 160)"

datatype item =
    One "char \<Rightarrow> bool"
  | Opt "char \<Rightarrow> bool"
  | Star "char \<Rightarrow> bool"
  | Plus "char \<Rightarrow> bool"
  | LazyStar "char \<Rightarrow> bool"
  | Open nat
  | Close nat
  | End

datatype tok = Ch char | MOpen nat | MClose nat

fun mseq :: "item list \<Rightarrow> string \<Rightarrow> tok list option" where
  "mseq [] s = Some []"
| "mseq (One p # its) [] = None"
| "mseq (One p # its) (c # cs) =
     (if p c then map_option ((#) (Ch c)) (mseq its cs) else None)"
| "mseq (Opt p # its) [] = mseq its []"
| "mseq (Opt p # its) (c # cs) =
     (if p c
      then (case mseq its cs of Some t \<Rightarrow> Some (Ch c # t) | None \<Rightarrow> mseq its (c # cs))
      else mseq its (c # cs))"
| "mseq (Star p # its) [] = mseq its []"
| "mseq (Star p # its) (c # cs) =
     (if p c
      then (case mseq (Star p # its) cs of
              Some t \<Rightarrow> Some (Ch c # t)
            | None \<Rightarrow> mseq its (c # cs))
      else mseq its (c # cs))"
| "mseq (Plus p # its) [] = None"
| "mseq (Plus p # its) (c # cs) =
     (if p c then map_option ((#) (Ch c)) (mseq (Star p # its) cs) else None)"
| "mseq (LazyStar p # its) [] = mseq its []"
| "mseq (LazyStar p # its) (c # cs) =
     (case mseq its (c # cs) of
        Some t \<Rightarrow> Some t
      | None \<Rightarrow> if p c then map_option ((#) (Ch c)) (mseq (LazyStar p # its) cs) else None)"
| "mseq (Open n # its) s = map_option ((#) (MOpen n)) (mseq its s)"
| "mseq (Close n # its) s = map_option ((#) (MClose n)) (mseq its s)"
| "mseq (End # its) s = (if s = [] \<or> s = [CHR 0x0A] then mseq its s else None)"

fun search :: "item list \<Rightarrow> string \<Rightarrow> tok list option" where
  \<comment> \<open>\<open>re.search\<close>: the match at the leftmost start that has one\<close>
  "search its [] = mseq its []"
| "search its (c # cs) =
     (case mseq its (c # cs) of Some t \<Rightarrow> Some t | None \<Rightarrow> search its cs)"

fun group0 :: "tok list \<Rightarrow> string" where
  \<comment> \<open>\<open>match.group(0)\<close>\<close>
  "group0 [] = []"
| "group0 (Ch c # t) = c # group0 t"
| "group0 (_ # t) = group0 t"

fun until_close :: "nat \<Rightarrow> tok list \<Rightarrow> string" where
  "until_close n [] = []"
| "until_close n (Ch c # t) = c # until_close n t"
| "until_close n (MClose m # t) = (if m = n then [] else until_close n t)"
| "until_close n (MOpen m # t) = until_close n t"

fun group :: "nat \<Rightarrow> tok list \<Rightarrow> string" where
  \<comment> \<open>\<open>match.group(n)\<close> of a group that took part in the match\<close>
  "group n [] = []"
| "group n (MOpen m # t) = (if m = n then until_close n t else group n t)"
| "group n (_ # t) = group n t"

definition has_group :: "tok list \<Rightarrow> bool" where
  \<comment> \<open>\<open>match.lastindex\<close> is not \<open>None\<close>\<close>
  "has_group t = list_ex (\<lambda>k. case k of MOpen n \<Rightarrow> True | _ \<Rightarrow> False) t"

function findall :: "item list \<Rightarrow> string \<Rightarrow> string list" where
  \<comment> \<open>\<open>re.findall\<close> of a pattern without groups: the matches from left to right, each
      search resuming where the last match ended (one character on after an empty one)\<close>
  "findall its [] = []"
| "findall its (c # cs) =
     (case mseq its (c # cs) of
        None \<Rightarrow> findall its cs
      | Some t \<Rightarrow>
          if group0 t = [] then findall its cs
          else group0 t # findall its (drop (length (group0 t)) (c # cs)))"
  by pat_completeness auto
termination
  by (relation "measure (\<lambda>(its, s). length s)") (auto simp: neq_Nil_conv)

function sub_groups :: "item list \<Rightarrow> string \<Rightarrow> string" where
  \<comment> \<open>\<open>re.sub(pattern, r'\1\2', s)\<close> for a pattern that matches no empty string\<close>
  "sub_groups its [] = []"
| "sub_groups its (c # cs) =
     (case mseq its (c # cs) of
        None \<Rightarrow> c # sub_groups its cs
      | Some t \<Rightarrow>
          if group0 t = [] then c # sub_groups its cs
          else group 1 t @ group 2 t @ sub_groups its (drop (length (group0 t)) (c # cs)))"
  by pat_completeness auto
termination
  by (relation "measure (\<lambda>(its, s). length s)") (auto simp: neq_Nil_conv)

fun rstrip :: "(char \<Rightarrow> bool) \<Rightarrow> string \<Rightarrow> string" where
  \<comment> \<open>\<open>s.rstrip(chars)\<close>, and \<open>re.sub('[chars]+$', '', s)\<close> on a string without
      line break: the trailing characters of the set are removed\<close>
  "rstrip p s = rev (dropWhile p (rev s))"

definition lit :: "string \<Rightarrow> item list" where
  \<comment> \<open>literal text, compared exactly\<close>
  "lit w = map (\<lambda>c. One (\<lambda>x. x = c)) w"

definition liti :: "string \<Rightarrow> item list" where
  \<comment> \<open>literal text under \<open>re.IGNORECASE\<close>\<close>
  "liti w = map (\<lambda>c. One (\<lambda>x. lower_char x = lower_char c)) w"

definition dot :: "char \<Rightarrow> bool" where
  \<comment> \<open>\<open>.\<close>: any character but the line feed\<close>
  "dot c = (c \<noteq> CHR 0x0A)"

definition not_space :: "char \<Rightarrow> bool" where
  \<comment> \<open>\<open>[^\s]\<close>\<close>
  "not_space c = (\<not> is_space c)"

definition url_char :: "char \<Rightarrow> bool" where
  \<comment> \<open>\<open>[^\s<>"']\<close>\<close>
  "url_char c = (\<not> is_space c \<and> c \<notin> set [CHR ''<'', CHR ''>'', CHR 0x22, CHR 0x27])"

definition url_char_strict :: "char \<Rightarrow> bool" where
  \<comment> \<open>\<open>[^\s<>"'\{\}\[\]]\<close>\<close>
  "url_char_strict c = (url_char c \<and> c \<notin> set [CHR ''{'', CHR ''}'', CHR ''['', CHR '']''])"

definition host_char :: "char \<Rightarrow> bool" where
  \<comment> \<open>\<open>[^\s<>"'/\n]\<close>\<close>
  "host_char c = (url_char c \<and> c \<noteq> CHR ''/'')"

definition trailing_punct :: "char \<Rightarrow> bool" where
  \<comment> \<open>the set of \<open>rstrip(".,;:\"'")\<close>\<close>
  "trailing_punct c = (c \<in> set [CHR ''.'', CHR '','', CHR '';'', CHR '':'', CHR 0x22, CHR 0x27])"

section \<open>Endpoint extraction\<close>

text \<open>
  \<open>QuizParser._extract_submission_url(text, html)\<close> and
  \<open>QuizParser._extract_download_url(html)\<close>.  Both hand \<open>html\<close> to the HTML parser and read
  two things of the tree: the \<open>href\<close> values of the anchors that have one, in document
  order (\<open>soup.find_all("a", href=True)\<close>), and the text of the tree (\<open>soup.get_text()\<close>).
  The model takes these two readings in place of \<open>html\<close>.
\<close>

definition http_prefix :: "item list" where
  \<comment> \<open>\<open>https?://\<close>\<close>
  "http_prefix = lit ''http'' @ [Opt (\<lambda>x. x = CHR ''s'')] @ lit ''://''"

definition http_prefix_i :: "item list" where
  \<comment> \<open>\<open>https?://\<close> under \<open>re.IGNORECASE\<close>\<close>
  "http_prefix_i = liti ''http'' @ [Opt (\<lambda>x. lower_char x = CHR ''s'')] @ liti ''://''"

fun join_slash_lines :: "string \<Rightarrow> string" where
  \<comment> \<open>\<open>re.sub(r'\n(?=\/)', '', text)\<close>: a line feed directly before a slash is removed\<close>
  "join_slash_lines [] = []"
| "join_slash_lines [c] = [c]"
| "join_slash_lines (c # d # cs) =
     (if c = CHR 0x0A \<and> d = CHR ''/'' then join_slash_lines (d # cs)
      else c # join_slash_lines (d # cs))"

definition wrapped_url :: "item list" where
  \<comment> \<open>\<open>(https?://[^\s]+)\n([^\s]+)\<close>\<close>
  "wrapped_url =
     [Open 1] @ http_prefix @ [Plus not_space, Close 1, One (\<lambda>x. x = CHR 0x0A),
      Open 2, Plus not_space, Close 2]"

definition normalize_text :: "string \<Rightarrow> string" where
  "normalize_text text = sub_groups wrapped_url (join_slash_lines text)"

definition submission_patterns :: "item list list" where
  \<comment> \<open>the list \<open>patterns\<close>; the trailing \<open>(?:[^...]*)?\<close> of the first two is a greedy
      repetition that may be empty, the item \<open>Star\<close>\<close>
  "submission_patterns =
     [http_prefix_i @ [Plus url_char_strict] @ liti ''/submit'' @ [Star url_char_strict],
      http_prefix_i @ [Plus url_char_strict] @ liti ''/answer'' @ [Star url_char_strict],
      liti ''Post your answer to'' @ [Plus is_space, Open 1] @ http_prefix_i
        @ [Plus url_char_strict, Close 1],
      liti ''POST'' @ [LazyStar dot] @ liti ''to'' @ [Plus is_space, Open 1] @ http_prefix_i
        @ [Plus url_char_strict, Close 1]]"

definition url_cleanup :: "char \<Rightarrow> bool" where
  \<comment> \<open>\<open>[{}\[\]<>"'\s.,;:]\<close>\<close>
  "url_cleanup c = (\<not> url_char_strict c \<or> c \<in> set [CHR ''.'', CHR '','', CHR '';'', CHR '':''])"

definition constructed_cleanup :: "char \<Rightarrow> bool" where
  \<comment> \<open>\<open>[{}\[\]<>"'\s]\<close>\<close>
  "constructed_cleanup c = (\<not> url_char_strict c)"

fun first_pattern :: "item list list \<Rightarrow> string \<Rightarrow> string option" where
  \<comment> \<open>the loop over \<open>patterns\<close>: the first pattern found in the text gives the URL\<close>
  "first_pattern [] s = None"
| "first_pattern (p # ps) s =
     (case search p s of
        Some t \<Rightarrow> Some (rstrip url_cleanup (if has_group t then group 1 t else group0 t))
      | None \<Rightarrow> first_pattern ps s)"

definition text_submission_url :: "string \<Rightarrow> string" where
  \<comment> \<open>the part of \<open>_extract_submission_url\<close> after the loop over the anchors\<close>
  "text_submission_url text =
     (let normalized_text = normalize_text text
      in case first_pattern submission_patterns normalized_text of
           Some url \<Rightarrow> url
         | None \<Rightarrow>
             (case (case search ([Open 1] @ http_prefix @ [Plus host_char, Close 1]) text of
                      Some t \<Rightarrow>
                        if contains ''/submit'' (lower text)
                        then Some (rstrip constructed_cleanup (group 1 t @ ''/submit''))
                        else None
                    | None \<Rightarrow> None) of
                Some url \<Rightarrow> url
              | None \<Rightarrow>
                  (case find (\<lambda>url. contains ''submit'' (lower url) \<or> contains ''answer'' (lower url))
                          (findall (http_prefix @ [Plus url_char]) normalized_text) of
                     Some url \<Rightarrow> rstrip trailing_punct url
                   | None \<Rightarrow> [])))"

definition extract_submission_url :: "string \<Rightarrow> string list \<Rightarrow> string" where
  \<comment> \<open>\<open>_extract_submission_url\<close>; \<open>hrefs\<close> are the anchors' \<open>href\<close> values of \<open>html\<close>\<close>
  "extract_submission_url text hrefs =
     (case find (\<lambda>href. contains ''submit'' (lower href)) hrefs of
        Some href \<Rightarrow> href
      | None \<Rightarrow> text_submission_url text)"

definition file_extensions :: "string list" where
  "file_extensions = [''.pdf'', ''.csv'', ''.json'', ''.xlsx'', ''.txt'', ''.zip'']"

definition ext_pattern :: "string \<Rightarrow> item list" where
  \<comment> \<open>\<open>rf'(https?://[^\s<>"\']+{ext}[^\s<>"\']*)'\<close> under \<open>re.IGNORECASE\<close>: the extension is
      pasted into the pattern as it is, so its full stop is the wildcard \<open>.\<close>\<close>
  "ext_pattern ext =
     [Open 1] @ http_prefix_i @ [Plus url_char]
     @ map (\<lambda>c. if c = CHR ''.'' then One dot else One (\<lambda>x. lower_char x = lower_char c)) ext
     @ [Star url_char, Close 1]"

fun first_ext_in_text :: "string list \<Rightarrow> string \<Rightarrow> string option" where
  \<comment> \<open>the loop over the extensions on the text\<close>
  "first_ext_in_text [] text = None"
| "first_ext_in_text (ext # exts) text =
     (case search (ext_pattern ext) text of
        Some t \<Rightarrow> Some (rstrip trailing_punct (group 1 t))
      | None \<Rightarrow> first_ext_in_text exts text)"

definition extract_download_url :: "string list \<Rightarrow> string \<Rightarrow> string option" where
  \<comment> \<open>\<open>_extract_download_url\<close>; \<open>hrefs\<close> and \<open>text\<close> are the two readings of \<open>html\<close>\<close>
  "extract_download_url hrefs text =
     (case find (\<lambda>href. list_ex (\<lambda>ext. contains ext (lower href)) file_extensions) hrefs of
        Some href \<Rightarrow> Some href
      | None \<Rightarrow> first_ext_in_text file_extensions text)"

text \<open>
  The classification as the specification words it: an ordered list of rules, the first
  rule that holds gives the category.  \<open>claimed_rules\<close> reads the two endpoint rules as
  "the endpoint ends in the extension"; \<open>priority_rules\<close> reads them as "the endpoint
  contains the extension".  Both compare case-insensitively.
\<close>

definition first_match :: "(('a \<Rightarrow> bool) \<times> 'b) list \<Rightarrow> 'b \<Rightarrow> 'a \<Rightarrow> 'b" where
  "first_match rules dflt x =
     (case find (\<lambda>r. fst r x) rules of Some r \<Rightarrow> snd r | None \<Rightarrow> dflt)"

definition has_keyword :: "string list \<Rightarrow> string \<Rightarrow> bool" where
  "has_keyword ws text = list_ex (\<lambda>w. contains w (lower text)) ws"

definition endpoint_ends :: "string list \<Rightarrow> string option \<Rightarrow> bool" where
  "endpoint_ends exts dl =
     (case dl of None \<Rightarrow> False | Some d \<Rightarrow> list_ex (\<lambda>e. endswith (lower d) e) exts)"

definition endpoint_has :: "string list \<Rightarrow> string option \<Rightarrow> bool" where
  "endpoint_has exts dl =
     (case dl of None \<Rightarrow> False | Some d \<Rightarrow> list_ex (\<lambda>e. contains e (lower d)) exts)"

definition keyword_rules :: "((string \<times> string option \<Rightarrow> bool) \<times> string) list" where
  "keyword_rules =
     [(\<lambda>(t, d). has_keyword [''api'', ''endpoint''] t, ''api''),
      (\<lambda>(t, d). has_keyword [''chart'', ''plot'', ''graph'', ''visualiz''] t, ''visualization''),
      (\<lambda>(t, d). has_keyword [''sum'', ''average'', ''count'', ''filter'', ''sort'', ''aggregate''] t,
         ''data''),
      (\<lambda>(t, d). has_keyword [''scrape'', ''extract'', ''website'', ''page''] t, ''scraping'')]"

definition claimed_rules :: "((string \<times> string option \<Rightarrow> bool) \<times> string) list" where
  "claimed_rules =
     [(\<lambda>(t, d). endpoint_ends [''.pdf''] d, ''pdf''),
      (\<lambda>(t, d). endpoint_ends [''.csv'', ''.xlsx'', ''.json''] d, ''data'')] @ keyword_rules"

definition claimed_quiz_type :: "string \<Rightarrow> string option \<Rightarrow> string" where
  "claimed_quiz_type text dl = first_match claimed_rules ''general'' (text, dl)"

definition priority_rules :: "((string \<times> string option \<Rightarrow> bool) \<times> string) list" where
  "priority_rules =
     [(\<lambda>(t, d). endpoint_has [''.pdf''] d, ''pdf''),
      (\<lambda>(t, d). endpoint_has [''.csv'', ''.xlsx'', ''.json''] d, ''data'')] @ keyword_rules"

section \<open>Relative-URL resolution\<close>

text \<open>
  \<open>QuizParser.make_absolute_url(url, base_url)\<close> calls \<open>urlparse\<close> and \<open>urljoin\<close> of
  Python's \<open>urllib.parse\<close>.  They are modelled here after CPython 3.11, on strings of code
  points below 256 (on which the NFKC test of \<open>_checknetloc\<close> never fires).  A \<open>ValueError\<close>
  of the library is the error value; the validation of a bracketed host, which the
  library leaves to the \<open>ipaddress\<close> module, is the parameter \<open>host_ok\<close>.

  The type \<open>error\<close> holds the exceptions of the whole development: the Python
  exceptions by name, \<open>Raised msg\<close> for an exception of a collaborator with its message,
  and \<open>OutOfModel\<close> where the source goes on with a value these types cannot hold.
\<close>

datatype error =
    ValueError
  | IndexError
  | JSONDecodeError
  | AttributeError
  | ValidationError
  | Raised string
  | OutOfModel

record split_result =
  scheme :: string
  netloc :: string
  path :: string
  query :: string
  fragment :: string

record parse_result = split_result +
  params :: string

definition uses_relative :: "string list" where
  "uses_relative =
     ['''', ''ftp'', ''http'', ''gopher'', ''nntp'', ''imap'', ''wais'', ''file'', ''https'',
      ''shttp'', ''mms'', ''prospero'', ''rtsp'', ''rtsps'', ''rtspu'', ''sftp'', ''svn'',
      ''svn+ssh'', ''ws'', ''wss'']"

definition uses_netloc :: "string list" where
  "uses_netloc =
     ['''', ''ftp'', ''http'', ''gopher'', ''nntp'', ''telnet'', ''imap'', ''wais'', ''file'',
      ''mms'', ''https'', ''shttp'', ''snews'', ''prospero'', ''rtsp'', ''rtsps'', ''rtspu'',
      ''rsync'', ''svn'', ''svn+ssh'', ''sftp'', ''nfs'', ''git'', ''git+ssh'', ''ws'', ''wss'']"

definition uses_params :: "string list" where
  "uses_params =
     ['''', ''ftp'', ''hdl'', ''prospero'', ''http'', ''imap'', ''https'', ''shttp'', ''rtsp'',
      ''rtsps'', ''rtspu'', ''sip'', ''sips'', ''mms'', ''sftp'', ''tel'']"

definition c0_or_space :: "char \<Rightarrow> bool" where
  \<comment> \<open>\<open>_WHATWG_C0_CONTROL_OR_SPACE\<close>\<close>
  "c0_or_space c = ((of_char c :: nat) \<le> 32)"

definition unsafe_byte :: "char \<Rightarrow> bool" where
  \<comment> \<open>\<open>_UNSAFE_URL_BYTES_TO_REMOVE\<close>: tab, carriage return, line feed\<close>
  "unsafe_byte c = (c \<in> set [CHR 0x09, CHR 0x0D, CHR 0x0A])"

definition ascii_alpha :: "char \<Rightarrow> bool" where
  "ascii_alpha c =
     (let n = (of_char c :: nat) in (65 \<le> n \<and> n \<le> 90) \<or> (97 \<le> n \<and> n \<le> 122))"

definition scheme_char :: "char \<Rightarrow> bool" where
  \<comment> \<open>\<open>scheme_chars\<close>: letters, digits and \<open>+-.\<close>\<close>
  "scheme_char c =
     (let n = (of_char c :: nat)
      in ascii_alpha c \<or> (48 \<le> n \<and> n \<le> 57) \<or> c \<in> set [CHR ''+'', CHR ''-'', CHR ''.''])"

definition split_first :: "char \<Rightarrow> string \<Rightarrow> string \<times> string" where
  \<comment> \<open>\<open>s.split(d, 1)\<close> of a string that contains \<open>d\<close>\<close>
  "split_first d s = (takeWhile (\<lambda>c. c \<noteq> d) s, drop 1 (dropWhile (\<lambda>c. c \<noteq> d) s))"

fun split_on :: "char \<Rightarrow> string \<Rightarrow> string list" where
  \<comment> \<open>\<open>s.split(d)\<close>\<close>
  "split_on d [] = [[]]"
| "split_on d (c # cs) =
     (if c = d then [] # split_on d cs
      else (case split_on d cs of [] \<Rightarrow> [[c]] | x # xs \<Rightarrow> (c # x) # xs))"

fun join :: "string \<Rightarrow> string list \<Rightarrow> string" where
  \<comment> \<open>\<open>d.join(xs)\<close>\<close>
  "join d [] = []"
| "join d [x] = x"
| "join d (x # y # xs) = x @ d @ join d (y # xs)"

definition split_scheme :: "string \<Rightarrow> (string \<times> string) option" where
  \<comment> \<open>the scheme test of \<open>urlsplit\<close>: a colon after a first ASCII letter and scheme
      characters only\<close>
  "split_scheme url =
     (let pre = takeWhile (\<lambda>c. c \<noteq> CHR '':'') url
      in case pre of
           [] \<Rightarrow> None
         | c # _ \<Rightarrow>
             if length pre < length url \<and> ascii_alpha c \<and> list_all scheme_char pre
             then Some (lower pre, drop (length pre + 1) url)
             else None)"

definition splitnetloc :: "string \<Rightarrow> string \<times> string" where
  \<comment> \<open>\<open>_splitnetloc(url, 2)\<close>\<close>
  "splitnetloc url =
     (let delim = (\<lambda>c. c \<in> set [CHR ''/'', CHR ''?'', CHR ''#''])
      in (takeWhile (\<lambda>c. \<not> delim c) (drop 2 url), dropWhile (\<lambda>c. \<not> delim c) (drop 2 url)))"

definition urlsplit ::
  "(string \<Rightarrow> bool) \<Rightarrow> string \<Rightarrow> string \<Rightarrow> error + split_result" where
  "urlsplit host_ok url0 scheme0 =
     (let url1 = filter (\<lambda>c. \<not> unsafe_byte c) (dropWhile c0_or_space url0);
          scheme1 = filter (\<lambda>c. \<not> unsafe_byte c)
                      (rev (dropWhile c0_or_space (rev (dropWhile c0_or_space scheme0))));
          (scheme2, url2) = (case split_scheme url1 of Some su \<Rightarrow> su | None \<Rightarrow> (scheme1, url1));
          (netloc2, url3) = (if take 2 url2 = ''//'' then splitnetloc url2 else ([], url2));
          (url4, fragment2) =
             (if CHR ''#'' \<in> set url3 then split_first CHR ''#'' url3 else (url3, []));
          (url5, query2) =
             (if CHR ''?'' \<in> set url4 then split_first CHR ''?'' url4 else (url4, []))
      in if (CHR ''['' \<in> set netloc2) \<noteq> (CHR '']'' \<in> set netloc2) then Inl ValueError
         else if CHR ''['' \<in> set netloc2
                 \<and> \<not> host_ok (takeWhile (\<lambda>c. c \<noteq> CHR '']'')
                                 (drop 1 (dropWhile (\<lambda>c. c \<noteq> CHR ''['') netloc2)))
         then Inl ValueError
         else Inr \<lparr>scheme = scheme2, netloc = netloc2, path = url5, query = query2,
                     fragment = fragment2\<rparr>)"

definition splitparams :: "string \<Rightarrow> string \<times> string" where
  \<comment> \<open>\<open>_splitparams\<close>: the first semicolon of the last path segment\<close>
  "splitparams url =
     (let k = (if CHR ''/'' \<in> set url
               then length url - 1 - length (takeWhile (\<lambda>c. c \<noteq> CHR ''/'') (rev url))
               else 0);
          rest = drop k url
      in if CHR '';'' \<notin> set rest then (url, [])
         else (let i = k + length (takeWhile (\<lambda>c. c \<noteq> CHR '';'') rest)
               in (take i url, drop (i + 1) url)))"

definition urlparse ::
  "(string \<Rightarrow> bool) \<Rightarrow> string \<Rightarrow> string \<Rightarrow> error + parse_result" where
  "urlparse host_ok url scheme0 =
     (case urlsplit host_ok url scheme0 of
        Inl e \<Rightarrow> Inl e
      | Inr r \<Rightarrow>
          (let (url', params') =
                 (if scheme r \<in> set uses_params \<and> CHR '';'' \<in> set (path r)
                  then splitparams (path r) else (path r, []))
           in Inr \<lparr>scheme = scheme r, netloc = netloc r, path = url', query = query r,
                     fragment = fragment r, params = params'\<rparr>))"

definition urlunsplit :: "split_result \<Rightarrow> string" where
  "urlunsplit r =
     (let url1 = (if netloc r \<noteq> [] \<or> (scheme r \<noteq> [] \<and> scheme r \<in> set uses_netloc)
                     \<or> take 2 (path r) = ''//''
                  then ''//'' @ netloc r
                       @ (if path r \<noteq> [] \<and> take 1 (path r) \<noteq> ''/'' then ''/'' @ path r
                          else path r)
                  else path r);
          url2 = (if scheme r \<noteq> [] then scheme r @ '':'' @ url1 else url1);
          url3 = (if query r \<noteq> [] then url2 @ ''?'' @ query r else url2)
      in if fragment r \<noteq> [] then url3 @ ''#'' @ fragment r else url3)"

definition urlunparse :: "parse_result \<Rightarrow> string" where
  "urlunparse r =
     urlunsplit \<lparr>scheme = scheme r, netloc = netloc r,
                 path = (if params r \<noteq> [] then path r @ '';'' @ params r else path r),
                 query = query r, fragment = fragment r\<rparr>"

definition resolve_segments :: "string list \<Rightarrow> string list" where
  \<comment> \<open>the loop over \<open>segments\<close>: \<open>..\<close> pops (nothing when the list is empty), \<open>.\<close> is
      skipped, anything else is appended\<close>
  "resolve_segments segments =
     foldl (\<lambda>resolved seg. if seg = ''..'' then butlast resolved
                             else if seg = ''.'' then resolved
                             else resolved @ [seg]) [] segments"

definition filter_middle :: "string list \<Rightarrow> string list" where
  \<comment> \<open>\<open>segments[1:-1] = filter(None, segments[1:-1])\<close>\<close>
  "filter_middle segments =
     (case segments of
        x # y # rest \<Rightarrow> x # filter (\<lambda>s. s \<noteq> []) (butlast (y # rest)) @ [last (y # rest)]
      | _ \<Rightarrow> segments)"

definition urljoin :: "(string \<Rightarrow> bool) \<Rightarrow> string \<Rightarrow> string \<Rightarrow> error + string" where
  "urljoin host_ok base url =
     (if base = [] then Inr url
      else if url = [] then Inr base
      else
        case urlparse host_ok base [] of
          Inl e \<Rightarrow> Inl e
        | Inr b \<Rightarrow>
        case urlparse host_ok url (scheme b) of
          Inl e \<Rightarrow> Inl e
        | Inr u \<Rightarrow>
            if scheme u \<noteq> scheme b \<or> scheme u \<notin> set uses_relative then Inr url
            else if scheme u \<in> set uses_netloc \<and> netloc u \<noteq> [] then Inr (urlunparse u)
            else
              let netloc' = (if scheme u \<in> set uses_netloc then netloc b else netloc u)
              in if path u = [] \<and> params u = [] then
                   Inr (urlunparse
                          \<lparr>scheme = scheme u, netloc = netloc', path = path b,
                           query = (if query u = [] then query b else query u),
                           fragment = fragment u, params = params b\<rparr>)
                 else
                   let base_parts = split_on CHR ''/'' (path b);
                       base_parts' = (if last base_parts \<noteq> [] then butlast base_parts
                                      else base_parts);
                       segments = (if take 1 (path u) = ''/'' then split_on CHR ''/'' (path u)
                                   else filter_middle (base_parts' @ split_on CHR ''/'' (path u)))
                   in case rev segments of
                        [] \<Rightarrow> Inl IndexError
                      | final # _ \<Rightarrow>
                          let resolved = resolve_segments segments;
                              resolved' = (if final = ''.'' \<or> final = ''..'' then resolved @ [[]]
                                           else resolved);
                              joined = join ''/'' resolved'
                          in Inr (urlunparse
                                    \<lparr>scheme = scheme u, netloc = netloc',
                                     path = (if joined = [] then ''/'' else joined),
                                     query = query u, fragment = fragment u,
                                     params = params u\<rparr>))"

definition make_absolute_url ::
  "(string \<Rightarrow> bool) \<Rightarrow> string \<Rightarrow> string \<Rightarrow> error + string" where
  "make_absolute_url host_ok url base_url =
     (if startswith url ''http'' then Inr url
      else
        case urlparse host_ok base_url [] of
          Inl e \<Rightarrow> Inl e
        | Inr parsed \<Rightarrow> urljoin host_ok (scheme parsed @ ''://'' @ netloc parsed) url)"


section \<open>JSON values and \<open>json.loads\<close>\<close>

text \<open>
  The values an answer can take, and that \<open>json.loads\<close> returns.  A \<open>dict\<close> is the list
  of its items in insertion order, without duplicate keys.  A finite \<open>float\<close> is kept as
  the decimal number its literal denotes, \<open>m * 10 ^ e\<close> with \<open>m\<close> free of trailing zeros;
  the rounding to a binary double is not modelled.
\<close>

datatype pyfloat = Dec int int | Infinity bool | NaN

datatype json =
    JNull
  | JBool bool
  | JInt int
  | JFloat pyfloat
  | JStr string
  | JArr "json list"
  | JObj "(string \<times> json) list"

fun dict_get :: "(string \<times> json) list \<Rightarrow> string \<Rightarrow> json option" where
  \<comment> \<open>\<open>d.get(k)\<close>, \<open>None\<close> of the model for a missing key\<close>
  "dict_get [] k = None"
| "dict_get ((k', v) # d) k = (if k' = k then Some v else dict_get d k)"

fun dict_set :: "(string \<times> json) list \<Rightarrow> string \<Rightarrow> json \<Rightarrow> (string \<times> json) list" where
  \<comment> \<open>\<open>d[k] = v\<close>: a present key keeps its place\<close>
  "dict_set [] k v = [(k, v)]"
| "dict_set ((k', v') # d) k v = (if k' = k then (k, v) # d else (k', v') # dict_set d k v)"

definition json_ws :: "char \<Rightarrow> bool" where
  \<comment> \<open>the whitespace of \<open>json\<close>: space, tab, line feed, carriage return\<close>
  "json_ws c = (c \<in> set [CHR '' '', CHR 0x09, CHR 0x0A, CHR 0x0D])"

definition skip_ws :: "string \<Rightarrow> string" where
  "skip_ws s = dropWhile json_ws s"

definition is_digit :: "char \<Rightarrow> bool" where
  \<comment> \<open>\<open>[0-9]\<close>, and \<open>\d\<close> on code points below 256\<close>
  "is_digit c = (let n = (of_char c :: nat) in 48 \<le> n \<and> n \<le> 57)"

definition digits_val :: "string \<Rightarrow> int" where
  "digits_val ds = foldl (\<lambda>n c. 10 * n + (int (of_char c) - 48)) 0 ds"

definition max_str_digits :: nat where
  \<comment> \<open>the limit of \<open>int\<close> on the digits of a decimal string\<close>
  "max_str_digits = 4300"

definition mk_int :: "bool \<Rightarrow> string \<Rightarrow> error + int" where
  \<comment> \<open>\<open>int\<close> of a sign and a non-empty run of digits \<open>0-9\<close>\<close>
  "mk_int neg ds =
     (if length ds > max_str_digits then Inl ValueError
      else Inr (if neg then - digits_val ds else digits_val ds))"

definition mk_float :: "bool \<Rightarrow> string \<Rightarrow> string \<Rightarrow> int \<Rightarrow> pyfloat" where
  \<comment> \<open>\<open>float\<close> of sign, integer digits, fraction digits and exponent\<close>
  "mk_float neg ds fs ex =
     (let sig = rev (dropWhile (\<lambda>c. c = CHR ''0'') (rev (ds @ fs)));
          zeros = length (ds @ fs) - length sig;
          m = digits_val sig
      in if m = 0 then Dec 0 0
         else Dec (if neg then - m else m) (ex - int (length fs) + int zeros))"

definition hex_val :: "char \<Rightarrow> nat option" where
  "hex_val c =
     (let n = (of_char c :: nat)
      in if 48 \<le> n \<and> n \<le> 57 then Some (n - 48)
         else if 65 \<le> n \<and> n \<le> 70 then Some (n - 55)
         else if 97 \<le> n \<and> n \<le> 102 then Some (n - 87)
         else None)"

definition hex4 :: "char \<Rightarrow> char \<Rightarrow> char \<Rightarrow> char \<Rightarrow> nat option" where
  "hex4 a b c d =
     (case (hex_val a, hex_val b, hex_val c, hex_val d) of
        (Some w, Some x, Some y, Some z) \<Rightarrow> Some (((w * 16 + x) * 16 + y) * 16 + z)
      | _ \<Rightarrow> None)"

definition backslash :: "char \<Rightarrow> char option" where
  \<comment> \<open>the table \<open>BACKSLASH\<close> of the one-letter escapes\<close>
  "backslash e =
     (if e = CHR 0x22 then Some (CHR 0x22)
      else if e = CHR 0x5C then Some (CHR 0x5C)
      else if e = CHR ''/'' then Some (CHR ''/'')
      else if e = CHR ''b'' then Some (CHR 0x08)
      else if e = CHR ''f'' then Some (CHR 0x0C)
      else if e = CHR ''n'' then Some (CHR 0x0A)
      else if e = CHR ''r'' then Some (CHR 0x0D)
      else if e = CHR ''t'' then Some (CHR 0x09)
      else None)"

fun scanstring :: "string \<Rightarrow> error + (string \<times> string)" where
  \<comment> \<open>the text after an opening quote: the string it holds and the text after the closing
      quote; an escape \<open>\uXXXX\<close> of a code point from 256 on is outside the model\<close>
  "scanstring [] = Inl JSONDecodeError"
| "scanstring (c # cs) =
     (if c = CHR 0x22 then Inr ([], cs)
      else if c = CHR 0x5C then
        (case cs of
           [] \<Rightarrow> Inl JSONDecodeError
         | e # r \<Rightarrow>
             if e = CHR ''u'' then
               (case r of
                  h1 # h2 # h3 # h4 # r' \<Rightarrow>
                    (case hex4 h1 h2 h3 h4 of
                       None \<Rightarrow> Inl JSONDecodeError
                     | Some uni \<Rightarrow>
                         if uni < 256 then
                           (case scanstring r' of
                              Inl x \<Rightarrow> Inl x
                            | Inr (str, rest) \<Rightarrow> Inr (char_of uni # str, rest))
                         else Inl OutOfModel)
                | _ \<Rightarrow> Inl JSONDecodeError)
             else
               (case backslash e of
                  None \<Rightarrow> Inl JSONDecodeError
                | Some ch \<Rightarrow>
                    (case scanstring r of
                       Inl x \<Rightarrow> Inl x
                     | Inr (str, rest) \<Rightarrow> Inr (ch # str, rest))))
      else if (of_char c :: nat) < 32 then Inl JSONDecodeError
      else
        (case scanstring cs of
           Inl x \<Rightarrow> Inl x
         | Inr (str, rest) \<Rightarrow> Inr (c # str, rest)))"

definition match_number :: "string \<Rightarrow> ((bool \<times> string \<times> string \<times> int option) \<times> string) option" where
  \<comment> \<open>\<open>NUMBER_RE\<close>, \<open>(-?(?:0|[1-9]\d*))(\.\d+)?([eE][-+]?\d+)?\<close>: sign, integer digits,
      fraction digits, exponent, and the text after the match\<close>
  "match_number s =
     (let (neg, s1) = (case s of c # r \<Rightarrow> if c = CHR ''-'' then (True, r) else (False, s)
                               | [] \<Rightarrow> (False, s))
      in case s1 of
           [] \<Rightarrow> None
         | d # r \<Rightarrow>
             if \<not> is_digit d then None
             else
               let (ds, s2) = (if d = CHR ''0'' then ([d], r)
                               else (d # takeWhile is_digit r, dropWhile is_digit r));
                   (fs, s3) = (case s2 of
                                 p # q # r2 \<Rightarrow>
                                   if p = CHR ''.'' \<and> is_digit q
                                   then (q # takeWhile is_digit r2, dropWhile is_digit r2)
                                   else ([], s2)
                               | _ \<Rightarrow> ([], s2));
                   (ex, s4) =
                     (case s3 of
                        e # r3 \<Rightarrow>
                          if e = CHR ''e'' \<or> e = CHR ''E'' then
                            (let (eneg, r4) =
                                   (case r3 of
                                      g # r5 \<Rightarrow> if g = CHR ''-'' then (True, r5)
                                                else if g = CHR ''+'' then (False, r5)
                                                else (False, r3)
                                    | [] \<Rightarrow> (False, r3))
                             in case takeWhile is_digit r4 of
                                  [] \<Rightarrow> (None, s3)
                                | es \<Rightarrow> (Some (if eneg then - digits_val es else digits_val es),
                                          dropWhile is_digit r4))
                          else (None, s3)
                      | [] \<Rightarrow> (None, s3))
               in Some ((neg, ds, fs, ex), s4))"

definition number_value :: "bool \<times> string \<times> string \<times> int option \<Rightarrow> error + json" where
  \<comment> \<open>\<open>parse_float\<close> when a fraction or an exponent is there, \<open>parse_int\<close> otherwise\<close>
  "number_value m =
     (case m of (neg, ds, fs, ex) \<Rightarrow>
        if fs \<noteq> [] \<or> ex \<noteq> None
        then Inr (JFloat (mk_float neg ds fs (case ex of None \<Rightarrow> 0 | Some e \<Rightarrow> e)))
        else map_sum id JInt (mk_int neg ds))"

text \<open>
  The decoder.  Its recursion follows the nesting of the text, which no structural
  argument of the model mirrors, so each call spends one unit of fuel; \<open>json_loads\<close> gives
  it more fuel than the text has characters.  Running out of fuel is the error
  \<open>OutOfModel\<close>.
\<close>

fun scan_once :: "nat \<Rightarrow> string \<Rightarrow> error + (json \<times> string)"
  and parse_array :: "nat \<Rightarrow> json list \<Rightarrow> string \<Rightarrow> error + (json \<times> string)"
  and parse_object :: "nat \<Rightarrow> (string \<times> json) list \<Rightarrow> string \<Rightarrow> error + (json \<times> string)"
where
  "scan_once 0 s = Inl OutOfModel"
| "scan_once (Suc n) s =
     (case s of
        [] \<Rightarrow> Inl JSONDecodeError
      | c # cs \<Rightarrow>
          if c = CHR 0x22 then
            (case scanstring cs of Inl e \<Rightarrow> Inl e | Inr (str, rest) \<Rightarrow> Inr (JStr str, rest))
          else if c = CHR ''{'' then
            (let s1 = skip_ws cs
             in if take 1 s1 = ''}'' then Inr (JObj [], drop 1 s1)
                else parse_object n [] s1)
          else if c = CHR ''['' then
            (let s1 = skip_ws cs
             in if take 1 s1 = '']'' then Inr (JArr [], drop 1 s1)
                else parse_array n [] s1)
          else if startswith s ''null'' then Inr (JNull, drop 4 s)
          else if startswith s ''true'' then Inr (JBool True, drop 4 s)
          else if startswith s ''false'' then Inr (JBool False, drop 5 s)
          else
            (case match_number s of
               Some (m, rest) \<Rightarrow>
                 (case number_value m of Inl e \<Rightarrow> Inl e | Inr v \<Rightarrow> Inr (v, rest))
             | None \<Rightarrow>
                 if startswith s ''NaN'' then Inr (JFloat NaN, drop 3 s)
                 else if startswith s ''Infinity'' then Inr (JFloat (Infinity False), drop 8 s)
                 else if startswith s ''-Infinity'' then Inr (JFloat (Infinity True), drop 9 s)
                 else Inl JSONDecodeError))"
| "parse_array 0 acc s = Inl OutOfModel"
| "parse_array (Suc n) acc s =
     \<comment> \<open>\<open>s\<close> stands at a value; \<open>acc\<close> holds the values read so far\<close>
     (case scan_once n s of
        Inl e \<Rightarrow> Inl e
      | Inr (v, rest) \<Rightarrow>
          (let s1 = skip_ws rest
           in if take 1 s1 = '']'' then Inr (JArr (acc @ [v]), drop 1 s1)
              else if take 1 s1 = '','' then parse_array n (acc @ [v]) (skip_ws (drop 1 s1))
              else Inl JSONDecodeError))"
| "parse_object 0 acc s = Inl OutOfModel"
| "parse_object (Suc n) acc s =
     \<comment> \<open>\<open>s\<close> stands at a key; \<open>acc\<close> holds the items read so far\<close>
     (if take 1 s \<noteq> [CHR 0x22] then Inl JSONDecodeError
      else
        case scanstring (drop 1 s) of
          Inl e \<Rightarrow> Inl e
        | Inr (key, rest) \<Rightarrow>
            (let s1 = skip_ws rest
             in if take 1 s1 \<noteq> '':'' then Inl JSONDecodeError
                else
                  case scan_once n (skip_ws (drop 1 s1)) of
                    Inl e \<Rightarrow> Inl e
                  | Inr (v, rest2) \<Rightarrow>
                      (let s2 = skip_ws rest2
                       in if take 1 s2 = ''}'' then Inr (JObj (dict_set acc key v), drop 1 s2)
                          else if take 1 s2 = '',''
                          then parse_object n (dict_set acc key v) (skip_ws (drop 1 s2))
                          else Inl JSONDecodeError)))"

definition json_loads :: "string \<Rightarrow> error + json" where
  \<comment> \<open>\<open>json.loads(s)\<close>: one value, whitespace around it, nothing else\<close>
  "json_loads s =
     (case scan_once (Suc (length s)) (skip_ws s) of
        Inl e \<Rightarrow> Inl e
      | Inr (v, rest) \<Rightarrow> if skip_ws rest = [] then Inr v else Inl JSONDecodeError)"

section \<open>Answer normalisation\<close>

text \<open>\<open>LLMService._parse_answer(answer_text)\<close>.\<close>

definition strip :: "string \<Rightarrow> string" where
  \<comment> \<open>\<open>s.strip()\<close>\<close>
  "strip s = rev (dropWhile is_space (rev (dropWhile is_space s)))"

definition isdigit :: "string \<Rightarrow> bool" where
  \<comment> \<open>\<open>s.isdigit()\<close>: non-empty, and every character a digit or one of the superscripts
      \<open>0xB2\<close>, \<open>0xB3\<close>, \<open>0xB9\<close>\<close>
  "isdigit s =
     (s \<noteq> [] \<and> list_all (\<lambda>c. is_digit c \<or> c \<in> set [CHR 0xB2, CHR 0xB3, CHR 0xB9]) s)"

definition py_int :: "string \<Rightarrow> error + int" where
  \<comment> \<open>\<open>int(s)\<close> for a string of minus signs followed by \<open>isdigit\<close> characters: a value for
      at most one sign before digits \<open>0-9\<close>, \<open>ValueError\<close> otherwise\<close>
  "py_int s =
     (let (neg, ds) = (case s of c # r \<Rightarrow> if c = CHR ''-'' then (True, r) else (False, s)
                              | [] \<Rightarrow> (False, s))
      in if ds \<noteq> [] \<and> list_all is_digit ds then mk_int neg ds else Inl ValueError)"

definition float_pattern :: "item list" where
  \<comment> \<open>\<open>^-?\d+\.?\d*$\<close>, matched at the start of the text\<close>
  "float_pattern =
     [Opt (\<lambda>x. x = CHR ''-''), Plus is_digit, Opt (\<lambda>x. x = CHR ''.''), Star is_digit, End]"

definition py_float :: "string \<Rightarrow> pyfloat" where
  \<comment> \<open>\<open>float(s)\<close> for a text that \<open>float_pattern\<close> matches\<close>
  "py_float s =
     (let (neg, s1) = (case s of c # r \<Rightarrow> if c = CHR ''-'' then (True, r) else (False, s)
                              | [] \<Rightarrow> (False, s));
          ds = takeWhile is_digit s1;
          s2 = dropWhile is_digit s1;
          fs = (case s2 of p # r \<Rightarrow> if p = CHR ''.'' then takeWhile is_digit r else []
                         | [] \<Rightarrow> [])
      in mk_float neg ds fs 0)"

definition strip_fence :: "string \<Rightarrow> string" where
  \<comment> \<open>the removal of the lines that begin with a code fence\<close>
  "strip_fence t =
     (if startswith t ''```''
      then strip (join [CHR 0x0A]
                    (filter (\<lambda>l. \<not> startswith l ''```'') (split_on (CHR 0x0A) t)))
      else t)"

definition answer_of_object :: "string \<Rightarrow> (error + json) option" where
  \<comment> \<open>the rule for a JSON text with an \<open>answer\<close> field: \<open>Some\<close> when the rule returns or
      raises, \<open>None\<close> when the function goes on to the next rule\<close>
  "answer_of_object t =
     (if startswith t ''{'' \<and> contains ([CHR 0x22] @ ''answer'' @ [CHR 0x22]) t then
        (case json_loads t of
           Inr (JObj d) \<Rightarrow> (case dict_get d ''answer'' of Some v \<Rightarrow> Some (Inr v) | None \<Rightarrow> None)
         | Inr _ \<Rightarrow> None
         | Inl JSONDecodeError \<Rightarrow> None
         | Inl e \<Rightarrow> Some (Inl e))
      else None)"

definition parse_answer :: "string \<Rightarrow> error + json" where
  "parse_answer answer_text0 =
     (let answer_text = strip_fence (strip answer_text0)
      in case answer_of_object answer_text of
           Some r \<Rightarrow> r
         | None \<Rightarrow>
             if lower answer_text = ''true'' \<or> lower answer_text = ''false''
             then Inr (JBool (lower answer_text = ''true''))
             else
               case (if CHR ''.'' \<notin> set answer_text
                        \<and> isdigit (dropWhile (\<lambda>c. c = CHR ''-'') answer_text)
                     then (case py_int answer_text of Inr n \<Rightarrow> Some n | Inl e \<Rightarrow> None)
                     else None) of
                 Some n \<Rightarrow> Inr (JInt n)
               | None \<Rightarrow>
                   if mseq float_pattern answer_text \<noteq> None
                   then Inr (JFloat (py_float answer_text))
                   else
                     case json_loads answer_text of
                       Inr v \<Rightarrow> Inr v
                     | Inl JSONDecodeError \<Rightarrow> Inr (JStr answer_text)
                     | Inl e \<Rightarrow> Inl e)"

section \<open>Collaborators and effects\<close>

text \<open>
  The orchestrator talks to a browser, a language model, two file solvers and the quiz
  server.  Their answers are not a function of the program, so they are oracles of an
  environment \<open>env\<close>.  Every call is written to a log, and an oracle sees the log of
  the calls made before it: the environment may answer the same request differently at
  different times.  An effectful function of the source takes the log and returns its
  outcome, a value or the exception it raises, with the log extended by its calls.

  The HTML parser is a pure function of the page; the environment holds the readings
  the program takes of its result.
\<close>

datatype request =
    TextRequest string
  | ImageRequest string string

datatype call =
    Render string
  | GetElement string
  | Completion request
  | PdfSolve string string
  | DataSolve string "string option" string
  | Post string json
  | CloseClient

type_synonym log = "call list"

type_synonym 'a io = "log \<Rightarrow> (error + 'a) \<times> log"

record response =
  status_code :: int
  body :: string

record env =
  render :: "log \<Rightarrow> string \<Rightarrow> error + string \<times> string"
    \<comment> \<open>\<open>BrowserService.execute_and_get_content(url)\<close>: the rendered HTML and the screenshot\<close>
  get_element_content :: "log \<Rightarrow> string \<Rightarrow> error + string"
    \<comment> \<open>\<open>BrowserService.get_element_content(url)\<close>\<close>
  completion :: "log \<Rightarrow> request \<Rightarrow> error + string"
    \<comment> \<open>\<open>client.chat.completions.create(...)\<close> followed by
        \<open>response.choices[0].message.content\<close>, for the user message of the request\<close>
  pdf_solve :: "log \<Rightarrow> string \<Rightarrow> string \<Rightarrow> error + json"
    \<comment> \<open>\<open>pdf_handler.solve(question, download_url)\<close>\<close>
  data_solve :: "log \<Rightarrow> string \<Rightarrow> string option \<Rightarrow> string \<Rightarrow> error + json"
    \<comment> \<open>\<open>data_handler.solve(question, download_url, raw_html)\<close>\<close>
  http_post :: "log \<Rightarrow> string \<Rightarrow> json \<Rightarrow> error + response"
    \<comment> \<open>\<open>client.post(submission_url, json=payload, ...)\<close>\<close>
  close :: "log \<Rightarrow> error + unit"
    \<comment> \<open>\<open>submitter.close()\<close>\<close>
  exc_text :: "error \<Rightarrow> string"
    \<comment> \<open>\<open>str(e)\<close>\<close>
  find_result :: "string \<Rightarrow> (string \<times> string) option"
    \<comment> \<open>\<open>soup.find(id="result")\<close> of a page: its \<open>get_text(separator="\n", strip=True)\<close>
        and its \<open>str\<close>, when the element is there\<close>
  text_lines :: "string \<Rightarrow> string"
    \<comment> \<open>\<open>soup.get_text(separator="\n", strip=True)\<close> of a page\<close>
  anchor_hrefs :: "string \<Rightarrow> string list"
    \<comment> \<open>the \<open>href\<close> values of \<open>soup.find_all("a", href=True)\<close>\<close>
  get_text :: "string \<Rightarrow> string"
    \<comment> \<open>\<open>soup.get_text()\<close>\<close>
  bracket_ok :: "string \<Rightarrow> bool"
    \<comment> \<open>the verdict of \<open>urllib.parse\<close> on a bracketed host\<close>

definition io_return :: "'a \<Rightarrow> 'a io" where
  "io_return a = (\<lambda>log. (Inr a, log))"

definition io_bind :: "'a io \<Rightarrow> ('a \<Rightarrow> 'b io) \<Rightarrow> 'b io" where
  \<comment> \<open>sequencing: an exception of the first part skips the second\<close>
  "io_bind m f =
     (\<lambda>log. case m log of (Inl e, log') \<Rightarrow> (Inl e, log') | (Inr a, log') \<Rightarrow> f a log')"

definition io_lift :: "error + 'a \<Rightarrow> 'a io" where
  \<comment> \<open>a pure computation that may raise\<close>
  "io_lift r = (\<lambda>log. (r, log))"

definition perform :: "call \<Rightarrow> (log \<Rightarrow> error + 'a) \<Rightarrow> 'a io" where
  \<comment> \<open>a call of a collaborator: the oracle answers on the log so far, the call is logged\<close>
  "perform c oracle = (\<lambda>log. (oracle log, log @ [c]))"

section \<open>Page parsing\<close>

definition extract_question :: "string \<Rightarrow> string" where
  \<comment> \<open>\<open>QuizParser._extract_question\<close>\<close>
  "extract_question content =
     (let question_lines =
            filter (\<lambda>line. line \<noteq> []
                      \<and> \<not> (startswith line ''{'' \<or> startswith line ''}'')
                      \<and> \<not> (contains ''email'' (lower line) \<and> contains ''secret'' (lower line))
                      \<and> \<not> contains ''post your answer'' (lower line))
              (map strip (split_on (CHR 0x0A) content))
      in join [CHR 0x0A] (take 10 question_lines))"

record quiz_content =
  question :: string
  submission_url :: string
  download_url :: "string option"
  quiz_type :: string
  raw_html :: string

definition parse_quiz_page :: "env \<Rightarrow> string \<Rightarrow> string \<Rightarrow> quiz_content" where
  \<comment> \<open>\<open>QuizParser.parse_quiz_page(html_content, quiz_url)\<close>\<close>
  "parse_quiz_page E html_content quiz_url =
     (let (content_text, content_html) =
            (case find_result E html_content of
               Some (t, h) \<Rightarrow> (t, h)
             | None \<Rightarrow> (text_lines E html_content, html_content));
          sub_url = extract_submission_url content_text (anchor_hrefs E content_html);
          dl_url = extract_download_url (anchor_hrefs E content_html) (get_text E content_html)
      in \<lparr>question = extract_question content_text,
          submission_url = sub_url,
          download_url = dl_url,
          quiz_type = determine_quiz_type content_text dl_url,
          raw_html = content_html\<rparr>)"

section \<open>Language-model service\<close>

definition analyze_quiz :: "env \<Rightarrow> string \<Rightarrow> string \<Rightarrow> json io" where
  \<comment> \<open>\<open>LLMService.analyze_quiz(question, context)\<close> without image: an exception of the
      request or of the parsing is logged and raised again\<close>
  "analyze_quiz E q context =
     (let text_content = ''Question: '' @ q
            @ (if context \<noteq> [] then [CHR 0x0A, CHR 0x0A] @ ''Context/Data:'' @ [CHR 0x0A] @ context
               else [])
      in io_bind (perform (Completion (TextRequest text_content))
                    (\<lambda>log. completion E log (TextRequest text_content)))
           (\<lambda>content. io_lift (parse_answer (strip content))))"

definition analyze_with_vision :: "env \<Rightarrow> string \<Rightarrow> string \<Rightarrow> string io" where
  \<comment> \<open>\<open>LLMService.analyze_with_vision(image_base64, prompt)\<close>\<close>
  "analyze_with_vision E image_base64 prompt =
     io_bind (perform (Completion (ImageRequest image_base64 prompt))
                (\<lambda>log. completion E log (ImageRequest image_base64 prompt)))
       (\<lambda>content. io_return (strip content))"

section \<open>Answer submission\<close>

record quiz_result =
  correct :: bool
  url :: "string option"
  reason :: "string option"

text \<open>
  \<open>QuizResult(correct=..., url=..., reason=...)\<close> validates its arguments.  The model
  follows the lax mode of pydantic 2: a \<open>bool\<close> field takes a boolean, the numbers 0 and
  1 and a dozen of words; an optional \<open>str\<close> field takes \<open>None\<close> or a string; anything else
  is a \<open>ValidationError\<close>.
\<close>

definition validate_bool :: "json \<Rightarrow> error + bool" where
  "validate_bool v =
     (case v of
        JBool b \<Rightarrow> Inr b
      | JInt i \<Rightarrow> if i = 0 then Inr False else if i = 1 then Inr True else Inl ValidationError
      | JFloat f \<Rightarrow> if f = Dec 0 0 then Inr False else if f = Dec 1 0 then Inr True
                   else Inl ValidationError
      | JStr s \<Rightarrow>
          if lower s \<in> set [''0'', ''off'', ''f'', ''false'', ''n'', ''no''] then Inr False
          else if lower s \<in> set [''1'', ''on'', ''t'', ''true'', ''y'', ''yes''] then Inr True
          else Inl ValidationError
      | _ \<Rightarrow> Inl ValidationError)"

definition validate_opt_str :: "json option \<Rightarrow> error + string option" where
  \<comment> \<open>the argument is \<open>data.get(key)\<close>: absent and \<open>null\<close> are both \<open>None\<close>\<close>
  "validate_opt_str v =
     (case v of
        None \<Rightarrow> Inr None
      | Some JNull \<Rightarrow> Inr None
      | Some (JStr s) \<Rightarrow> Inr (Some s)
      | Some _ \<Rightarrow> Inl ValidationError)"

function string_of_nat :: "nat \<Rightarrow> string" where
  "string_of_nat n =
     (if n < 10 then [char_of (48 + n)]
      else string_of_nat (n div 10) @ [char_of (48 + n mod 10)])"
  by pat_completeness auto
termination
  by (relation "measure id") auto

definition str_of_int :: "int \<Rightarrow> string" where
  \<comment> \<open>\<open>str(i)\<close>\<close>
  "str_of_int i = (if i < 0 then ''-'' @ string_of_nat (nat (- i)) else string_of_nat (nat i))"

definition payload :: "string \<Rightarrow> string \<Rightarrow> string \<Rightarrow> json \<Rightarrow> json" where
  "payload email secret quiz_url answer =
     JObj [(''email'', JStr email), (''secret'', JStr secret), (''url'', JStr quiz_url),
           (''answer'', answer)]"

definition result_of_response :: "response \<Rightarrow> error + quiz_result" where
  \<comment> \<open>the statements of \<open>submit_answer\<close> after the request, inside \<open>try\<close>\<close>
  "result_of_response resp =
     (if status_code resp = 200 then
        (case json_loads (body resp) of
           Inl e \<Rightarrow> Inl e
         | Inr (JObj data) \<Rightarrow>
             (case validate_bool (case dict_get data ''correct'' of None \<Rightarrow> JBool False
                                                                  | Some v \<Rightarrow> v) of
                Inl e \<Rightarrow> Inl e
              | Inr c \<Rightarrow>
                  (case validate_opt_str (dict_get data ''url'') of
                     Inl e \<Rightarrow> Inl e
                   | Inr u \<Rightarrow>
                       (case validate_opt_str (dict_get data ''reason'') of
                          Inl e \<Rightarrow> Inl e
                        | Inr r \<Rightarrow> Inr \<lparr>correct = c, url = u, reason = r\<rparr>)))
         | Inr _ \<Rightarrow> Inl AttributeError)
      else
        Inr \<lparr>correct = False, url = None,
             reason = Some (''HTTP '' @ str_of_int (status_code resp) @ '': '' @ body resp)\<rparr>)"

definition submit_answer ::
  "env \<Rightarrow> string \<Rightarrow> string \<Rightarrow> string \<Rightarrow> string \<Rightarrow> json \<Rightarrow> quiz_result io" where
  \<comment> \<open>\<open>AnswerSubmitter(email, secret).submit_answer(submission_url, quiz_url, answer)\<close>:
      the \<open>except Exception\<close> clause turns every exception of the request and of the
      reading of the response into a result\<close>
  "submit_answer E email secret sub_url quiz_url answer =
     (\<lambda>log.
        case io_bind (perform (Post sub_url (payload email secret quiz_url answer))
                        (\<lambda>log. http_post E log sub_url (payload email secret quiz_url answer)))
               (\<lambda>resp. io_lift (result_of_response resp)) log of
          (Inr r, log') \<Rightarrow> (Inr r, log')
        | (Inl e, log') \<Rightarrow>
            (Inr \<lparr>correct = False, url = None, reason = Some (exc_text E e)\<rparr>, log'))"

section \<open>Orchestrator\<close>

definition truthy :: "string option \<Rightarrow> bool" where
  \<comment> \<open>Python's truth value of an optional string: present and not empty\<close>
  "truthy s = (case s of None \<Rightarrow> False | Some v \<Rightarrow> v \<noteq> [])"

definition vision_prompt :: "string \<Rightarrow> string" where
  "vision_prompt q =
     ''Look at this quiz page screenshot and answer the question.'' @ [CHR 0x0A, CHR 0x0A]
     @ ''Question from page:'' @ [CHR 0x0A] @ q @ [CHR 0x0A, CHR 0x0A]
     @ ''Instructions:'' @ [CHR 0x0A]
     @ ''1. Analyze the screenshot carefully'' @ [CHR 0x0A]
     @ ''2. Follow any instructions in the quiz'' @ [CHR 0x0A]
     @ ''3. Compute the exact answer requested'' @ [CHR 0x0A]
     @ ''4. Return ONLY the answer value (number, string, boolean, or JSON)'' @ [CHR 0x0A]
     @ ''5. Do NOT include explanations''"

definition describe_prompt :: string where
  "describe_prompt =
     ''Describe this quiz page. What exactly is the question asking? ''
     @ ''What data operation is needed? What format should the answer be in?''"

definition solve_with_vision :: "env \<Rightarrow> quiz_content \<Rightarrow> string \<Rightarrow> json io" where
  \<comment> \<open>\<open>_solve_with_vision\<close>\<close>
  "solve_with_vision E qc screenshot =
     io_bind (analyze_with_vision E screenshot (vision_prompt (question qc)))
       (\<lambda>answer. io_lift (parse_answer answer))"

definition solve_api_task :: "env \<Rightarrow> quiz_content \<Rightarrow> string \<Rightarrow> json io" where
  \<comment> \<open>\<open>_solve_api_task\<close>\<close>
  "solve_api_task E qc base_url = analyze_quiz E (question qc) (raw_html qc)"

definition scrape_patterns :: "item list list" where
  \<comment> \<open>\<open>url_patterns\<close> of \<open>_solve_scraping_task\<close>\<close>
  "scrape_patterns =
     (let rel_path = [Open 1, One (\<lambda>x. x = CHR ''/''), Plus url_char, Close 1]
      in [[One (\<lambda>x. x = CHR ''S'' \<or> x = CHR ''s'')] @ lit ''crape'' @ [Plus is_space] @ rel_path,
          [One (\<lambda>x. x = CHR ''V'' \<or> x = CHR ''v'')] @ lit ''isit'' @ [Plus is_space] @ rel_path,
          [One (\<lambda>x. x = CHR ''G'' \<or> x = CHR ''g'')] @ lit ''et'' @ [LazyStar dot] @ lit ''from''
            @ [Plus is_space] @ rel_path,
          lit ''href='' @ [One (\<lambda>x. x = CHR 0x22), Open 1, One (\<lambda>x. x = CHR ''/''),
                           Plus (\<lambda>x. x \<noteq> CHR 0x22), Close 1, One (\<lambda>x. x = CHR 0x22)]])"

fun first_scrape_url :: "item list list \<Rightarrow> string \<Rightarrow> string option" where
  "first_scrape_url [] s = None"
| "first_scrape_url (p # ps) s =
     (case search p s of Some t \<Rightarrow> Some (group 1 t) | None \<Rightarrow> first_scrape_url ps s)"

definition solve_scraping_task :: "env \<Rightarrow> quiz_content \<Rightarrow> string \<Rightarrow> string \<Rightarrow> json io" where
  \<comment> \<open>\<open>_solve_scraping_task\<close>; an empty match cannot occur, the group begins with a slash\<close>
  "solve_scraping_task E qc base_url screenshot =
     (case first_scrape_url scrape_patterns (question qc @ raw_html qc) of
        Some scrape_url \<Rightarrow>
          io_bind (io_lift (make_absolute_url (bracket_ok E) scrape_url base_url))
            (\<lambda>absolute_url.
               io_bind (perform (GetElement absolute_url)
                          (\<lambda>log. get_element_content E log absolute_url))
                 (\<lambda>scraped_content.
                    analyze_quiz E (question qc)
                      (''Scraped content from '' @ absolute_url @ '':'' @ [CHR 0x0A]
                       @ scraped_content)))
      | None \<Rightarrow> solve_with_vision E qc screenshot)"

definition solve_by_type :: "env \<Rightarrow> quiz_content \<Rightarrow> string \<Rightarrow> string \<Rightarrow> json io" where
  \<comment> \<open>\<open>_solve_by_type\<close>\<close>
  "solve_by_type E qc screenshot base_url =
     (if quiz_type qc = ''pdf'' \<and> truthy (download_url qc) then
        io_bind (io_lift (make_absolute_url (bracket_ok E) (the (download_url qc)) base_url))
          (\<lambda>dl. perform (PdfSolve (question qc) dl) (\<lambda>log. pdf_solve E log (question qc) dl))
      else if quiz_type qc = ''data'' then
        io_bind (if truthy (download_url qc)
                 then io_bind (io_lift (make_absolute_url (bracket_ok E) (the (download_url qc))
                                          base_url))
                        (\<lambda>dl. io_return (Some dl))
                 else io_return None)
          (\<lambda>dl.
             io_bind (analyze_with_vision E screenshot describe_prompt)
               (\<lambda>vision_analysis.
                  let enhanced_question =
                        question qc @ [CHR 0x0A, CHR 0x0A] @ ''Page Analysis: '' @ vision_analysis
                  in perform (DataSolve enhanced_question dl (raw_html qc))
                       (\<lambda>log. data_solve E log enhanced_question dl (raw_html qc))))
      else if quiz_type qc = ''scraping'' then solve_scraping_task E qc base_url screenshot
      else if quiz_type qc = ''api'' then solve_api_task E qc base_url
      else solve_with_vision E qc screenshot)"

definition solve_single_quiz :: "env \<Rightarrow> string \<Rightarrow> string \<Rightarrow> string \<Rightarrow> quiz_result io" where
  \<comment> \<open>\<open>QuizOrchestrator(email, secret).solve_single_quiz(url)\<close>\<close>
  "solve_single_quiz E email secret quiz_url =
     io_bind (perform (Render quiz_url) (\<lambda>log. render E log quiz_url))
       (\<lambda>(html_content, screenshot).
          let qc = parse_quiz_page E html_content quiz_url
          in if submission_url qc = [] then
               io_return \<lparr>correct = False, url = None,
                           reason = Some ''No submission URL found''\<rparr>
             else
               io_bind (io_lift (make_absolute_url (bracket_ok E) (submission_url qc) quiz_url))
                 (\<lambda>sub_url.
                    io_bind (solve_by_type E qc screenshot quiz_url)
                      (\<lambda>answer.
                         io_bind (submit_answer E email secret sub_url quiz_url answer)
                           (\<lambda>result.
                              if \<not> correct result \<and> url result = None then
                                io_bind (solve_with_vision E qc screenshot)
                                  (\<lambda>answer2.
                                     submit_answer E email secret sub_url quiz_url answer2)
                              else io_return result))))"

record chain =
  current_url :: "string option"
  question_count :: int
  results :: "quiz_result list"

function chain_loop ::
  "env \<Rightarrow> string \<Rightarrow> string \<Rightarrow> int \<Rightarrow> chain \<Rightarrow> log \<Rightarrow> chain \<times> log" where
  \<comment> \<open>the \<open>while\<close> loop of \<open>solve_quiz_chain\<close>: an exception of the step ends the loop\<close>
  "chain_loop E email secret max_questions st log =
     (if truthy (current_url st) \<and> question_count st < max_questions then
        (case solve_single_quiz E email secret (the (current_url st)) log of
           (Inr result, log') \<Rightarrow>
             chain_loop E email secret max_questions
               \<lparr>current_url = url result, question_count = question_count st + 1,
                 results = results st @ [result]\<rparr> log'
         | (Inl e, log') \<Rightarrow> (st\<lparr>question_count := question_count st + 1\<rparr>, log'))
      else (st, log))"
  by pat_completeness auto
termination
  by (relation "measure (\<lambda>(E, email, secret, max_questions, st, log).
                           nat (max_questions - question_count st))") auto


definition count_calls :: "(call \<Rightarrow> bool) \<Rightarrow> log \<Rightarrow> nat" where
  "count_calls P log = length (filter P log)"

definition is_render :: "call \<Rightarrow> bool" where
  "is_render c = (case c of Render u \<Rightarrow> True | _ \<Rightarrow> False)"

definition is_post :: "call \<Rightarrow> bool" where
  "is_post c = (case c of Post u p \<Rightarrow> True | _ \<Rightarrow> False)"

section \<open>Reference environments\<close>

text \<open>
  Concrete environments on which the theorems are exercised.  The page of \<open>demo_env\<close>
  shows the question \<open>What is 6 times 7?\<close> and the given links; the language model answers
  42; the PDF solver fails; the quiz server answers by the given oracle.
\<close>

definition demo_env :: "string list \<Rightarrow> (log \<Rightarrow> error + response) \<Rightarrow> env" where
  "demo_env links server =
     \<lparr>render = (\<lambda>log u. Inr (''<html>quiz</html>'', ''c2NyZWVu'')),
      get_element_content = (\<lambda>log u. Inr ''none''),
      completion = (\<lambda>log r. Inr '' 42 ''),
      pdf_solve = (\<lambda>log q d. Inl (Raised ''download failed'')),
      data_solve = (\<lambda>log q d h. Inr (JInt 0)),
      http_post = (\<lambda>log u p. server log),
      close = (\<lambda>log. Inr ()),
      exc_text = (\<lambda>e. case e of Raised m \<Rightarrow> m | _ \<Rightarrow> ''error''),
      find_result = (\<lambda>h. None),
      text_lines = (\<lambda>h. ''What is 6 times 7?''),
      anchor_hrefs = (\<lambda>h. links),
      get_text = (\<lambda>h. ''What is 6 times 7?''),
      bracket_ok = (\<lambda>h. True)\<rparr>"

definition always_next :: "log \<Rightarrow> error + response" where
  \<comment> \<open>a server that accepts every answer and always names a next URL\<close>
  \<open>always_next log =
     Inr \<lparr>status_code = 200, body = ''{"correct": true, "url": "https://quiz.example/next"}''\<rparr>\<close>

definition always_wrong :: "log \<Rightarrow> error + response" where
  \<comment> \<open>a server that rejects every answer and names no next URL\<close>
  \<open>always_wrong log = Inr \<lparr>status_code = 200, body = ''{"correct": false}''\<rparr>\<close>

definition text_or_absent :: "json option \<Rightarrow> bool" where
  \<comment> \<open>a field of the verdict that is missing, \<open>null\<close> or a string\<close>
  "text_or_absent v =
     (case v of None \<Rightarrow> True | Some JNull \<Rightarrow> True | Some (JStr s) \<Rightarrow> True | Some _ \<Rightarrow> False)"

definition field_text :: "json option \<Rightarrow> string option" where
  "field_text v = (case v of Some (JStr s) \<Rightarrow> Some s | _ \<Rightarrow> None)"


section \<open>Call counting\<close>

text \<open>
  Proof devices for the log: \<open>emits P m\<close> says that the computation \<open>m\<close>, from any log,
  only appends calls that satisfy \<open>P\<close>; \<open>aside\<close> are the calls that neither fetch a quiz
  page nor submit an answer.
\<close>

definition emits :: "(call \<Rightarrow> bool) \<Rightarrow> 'a io \<Rightarrow> bool" where
  "emits P m = (\<forall>log. \<exists>ev. snd (m log) = log @ ev \<and> list_all P ev)"

definition aside :: "call \<Rightarrow> bool" where
  "aside c = (\<not> is_render c \<and> \<not> is_post c)"

definition initial_chain :: "string \<Rightarrow> chain" where
  \<comment> \<open>the state of \<open>solve_quiz_chain\<close> before the loop\<close>
  "initial_chain initial_url = \<lparr>current_url = Some initial_url, question_count = 0, results = []\<rparr>"

declare chain_loop.simps [simp del]

definition default_max_questions :: int where
  \<comment> \<open>the default of the parameter \<open>max_questions\<close> of \<open>solve_quiz_chain\<close>\<close>
  "default_max_questions = 20"

section \<open>Facts about the string helpers\<close>

lemma startswith_iff: "startswith s p \<longleftrightarrow> (\<exists>r. s = p @ r)"
  by (induction s p rule: startswith.induct) auto

lemma contains_iff: "contains sub s \<longleftrightarrow> (\<exists>a b. s = a @ sub @ b)"
proof (induction s)
  case Nil
  then show ?case by auto
next
  case (Cons c cs)
  show ?case
  proof
    assume "contains sub (c # cs)"
    then consider "startswith (c # cs) sub" | "contains sub cs" by auto
    then show "\<exists>a b. c # cs = a @ sub @ b"
    proof cases
      case 1
      then obtain r where "c # cs = sub @ r" by (auto simp: startswith_iff)
      then have "c # cs = [] @ sub @ r" by simp
      then show ?thesis by blast
    next
      case 2
      then obtain a b where "cs = a @ sub @ b" using Cons.IH by blast
      then have "c # cs = (c # a) @ sub @ b" by simp
      then show ?thesis by blast
    qed
  next
    assume "\<exists>a b. c # cs = a @ sub @ b"
    then obtain a b where ab: "c # cs = a @ sub @ b" by blast
    show "contains sub (c # cs)"
    proof (cases a)
      case Nil
      with ab have "startswith (c # cs) sub" by (auto simp: startswith_iff)
      then show ?thesis by simp
    next
      case (Cons x a')
      with ab have "cs = a' @ sub @ b" by simp
      then have "contains sub cs" using Cons.IH by blast
      then show ?thesis by simp
    qed
  qed
qed

lemma endswith_iff: "endswith s p \<longleftrightarrow> (\<exists>q. s = q @ p)"
proof
  assume "endswith s p"
  then obtain r where "rev s = rev p @ r" by (auto simp: endswith_def startswith_iff)
  then have "s = rev r @ p" by (metis rev_append rev_rev_ident)
  then show "\<exists>q. s = q @ p" by blast
next
  assume "\<exists>q. s = q @ p"
  then show "endswith s p" by (auto simp: endswith_def startswith_iff)
qed

lemma endswith_contains: "endswith s p \<Longrightarrow> contains p s"
proof -
  assume "endswith s p"
  then obtain q where "s = q @ p @ []" by (auto simp: endswith_iff)
  then show ?thesis unfolding contains_iff by blast
qed

section \<open>Claims about the classification\<close>

text \<open>
  C1 (as stated, refuted).  The claim reads the endpoint rules as "ends in": an endpoint
  ending in \<open>.csv\<close> would then always be tabular data.  The code tests containment, and
  tests \<open>.pdf\<close> first, so an endpoint that ends in \<open>.csv\<close> but carries \<open>.pdf\<close> earlier is
  \<open>pdf\<close>; and an endpoint that carries \<open>.pdf\<close> before a query string is \<open>pdf\<close> although
  the claim's rules reach the keyword \<open>chart\<close>.
\<close>

theorem C1_ends_in_counterexample:
  "endswith (lower ''http://h/report.pdf/export.csv'') ''.csv''
   \<and> claimed_quiz_type ''total'' (Some ''http://h/report.pdf/export.csv'') = ''data''
   \<and> determine_quiz_type ''total'' (Some ''http://h/report.pdf/export.csv'') = ''pdf''
   \<and> claimed_quiz_type ''a chart'' (Some ''http://h/a.pdf?v=1'') = ''visualization''
   \<and> determine_quiz_type ''a chart'' (Some ''http://h/a.pdf?v=1'') = ''pdf''"
  by code_simp

lemma contains_lower_nonempty: "contains (c # e) (lower d) \<Longrightarrow> d \<noteq> []"
  by (auto simp: lower_def)

lemma determine_quiz_type_first_match:
  "determine_quiz_type text dl = first_match priority_rules ''general'' (text, dl)"
proof (cases dl)
  case None
  then show ?thesis
    by (simp add: determine_quiz_type_def first_match_def priority_rules_def
          keyword_rules_def has_keyword_def endpoint_has_def Let_def)
next
  case (Some d)
  show ?thesis
  proof (cases "d = []")
    case True
    with Some show ?thesis
      by (simp add: determine_quiz_type_def first_match_def priority_rules_def
            keyword_rules_def has_keyword_def endpoint_has_def Let_def lower_def)
  next
    case False
    with Some show ?thesis
      by (simp add: determine_quiz_type_def first_match_def priority_rules_def
            keyword_rules_def has_keyword_def endpoint_has_def Let_def)
  qed
qed

text \<open>
  C1 (amended).  For every page text and download endpoint the category is the first
  match of the fixed rule list, where the two endpoint rules test whether the lower-cased
  endpoint contains the extension: \<open>.pdf\<close> first, then \<open>.csv\<close>, \<open>.xlsx\<close> or \<open>.json\<close>, then
  the keyword rules api, visualization, data, scraping, and \<open>general\<close> when none holds.
  In particular an endpoint ending in \<open>.pdf\<close> is \<open>pdf\<close> whatever the text says, and an
  endpoint ending in \<open>.csv\<close>, \<open>.xlsx\<close> or \<open>.json\<close> that contains no \<open>.pdf\<close> is \<open>data\<close>
  whatever the text says.
\<close>

theorem C1_category_priority:
  "determine_quiz_type text dl = first_match priority_rules ''general'' (text, dl)
   \<and> (endswith (lower d) ''.pdf'' \<longrightarrow> determine_quiz_type text (Some d) = ''pdf'')
   \<and> ((endswith (lower d) ''.csv'' \<or> endswith (lower d) ''.xlsx'' \<or> endswith (lower d) ''.json'')
        \<and> \<not> contains ''.pdf'' (lower d)
      \<longrightarrow> determine_quiz_type text (Some d) = ''data'')"
proof (intro conjI impI)
  show "determine_quiz_type text dl = first_match priority_rules ''general'' (text, dl)"
    by (rule determine_quiz_type_first_match)
next
  assume e: "endswith (lower d) ''.pdf''"
  then have c: "contains ''.pdf'' (lower d)" by (rule endswith_contains)
  then have "d \<noteq> []" by (rule contains_lower_nonempty)
  with c show "determine_quiz_type text (Some d) = ''pdf''"
    by (simp add: determine_quiz_type_def Let_def)
next
  assume h: "(endswith (lower d) ''.csv'' \<or> endswith (lower d) ''.xlsx''
               \<or> endswith (lower d) ''.json'') \<and> \<not> contains ''.pdf'' (lower d)"
  then have c: "contains ''.csv'' (lower d) \<or> contains ''.xlsx'' (lower d)
                    \<or> contains ''.json'' (lower d)"
    using endswith_contains by blast
  then have "d \<noteq> []" using contains_lower_nonempty by blast
  with c h show "determine_quiz_type text (Some d) = ''data''"
    by (simp add: determine_quiz_type_def Let_def)
qed

theorem C1_category_priority_witness:
  "endswith (lower ''http://h/Data.PDF'') ''.pdf''
   \<and> determine_quiz_type ''plot a chart'' (Some ''http://h/Data.PDF'') = ''pdf''
   \<and> endswith (lower ''http://h/t.csv'') ''.csv''
   \<and> \<not> contains ''.pdf'' (lower ''http://h/t.csv'')
   \<and> determine_quiz_type ''plot a chart'' (Some ''http://h/t.csv'') = ''data''"
proof -
  have a: "endswith (lower ''http://h/Data.PDF'') ''.pdf''" by code_simp
  have b: "endswith (lower ''http://h/t.csv'') ''.csv''" by code_simp
  have c: "\<not> contains ''.pdf'' (lower ''http://h/t.csv'')" by code_simp
  show ?thesis
    using a b c
      C1_category_priority [of "''plot a chart''" None "''http://h/Data.PDF''"]
      C1_category_priority [of "''plot a chart''" None "''http://h/t.csv''"]
    by blast
qed

section \<open>Facts about the matcher\<close>











section \<open>Claims about endpoint extraction\<close>






section \<open>Claims about relative-URL resolution\<close>







section \<open>Claims about answer normalisation\<close>

lemma digit_facts:
  assumes "is_digit c"
  shows "c \<noteq> CHR ''-''" "c \<noteq> CHR ''.''" "c \<noteq> CHR ''{''"
    "lower_char c \<noteq> CHR ''t''" "lower_char c \<noteq> CHR ''f''"
  using assms by (auto simp: is_digit_def lower_char_def Let_def)

lemma mseq_digits_tail:
  "list_all is_digit ds \<Longrightarrow>
   mseq [Star is_digit, Opt (\<lambda>x. x = CHR ''.''), Star is_digit, End] ds = Some (map Ch ds)"
  by (induction ds) auto

lemma float_pattern_digits:
  assumes "ds \<noteq> []" and "list_all is_digit ds" and "sg = [] \<or> sg = ''-''"
  shows "mseq float_pattern (sg @ ds) \<noteq> None"
proof -
  from assms(1) obtain c cs where ds: "ds = c # cs" by (cases ds) auto
  with assms(2) have c: "is_digit c" and cs: "list_all is_digit cs" by auto
  have p: "mseq [Plus is_digit, Opt (\<lambda>x. x = CHR ''.''), Star is_digit, End] ds
             = Some (map Ch ds)"
    using ds c mseq_digits_tail [OF cs] by simp
  from assms(3) show ?thesis
  proof
    assume "sg = []"
    with p ds digit_facts(1) [OF c] show ?thesis by (simp add: float_pattern_def)
  next
    assume "sg = ''-''"
    with p show ?thesis by (simp add: float_pattern_def)
  qed
qed

lemma answer_of_object_no_brace: "\<not> startswith t ''{'' \<Longrightarrow> answer_of_object t = None"
  by (simp add: answer_of_object_def)

lemma bool_literal_no_brace:
  "lower t = ''true'' \<or> lower t = ''false'' \<Longrightarrow> \<not> startswith t ''{''"
  by (cases t) (auto simp: lower_def lower_char_def)

lemma parse_answer_object:
  assumes "startswith t ''{''" and \<open>contains ''"answer"'' t\<close>
    and "json_loads t = Inr (JObj d)" and "dict_get d ''answer'' = Some v"
    and "t = strip_fence (strip a)"
  shows "parse_answer a = Inr v"
  using assms by (simp add: parse_answer_def answer_of_object_def)

lemma parse_answer_bool:
  assumes "lower t = ''true'' \<or> lower t = ''false''" and "t = strip_fence (strip a)"
  shows "parse_answer a = Inr (JBool (lower t = ''true''))"
proof -
  have "answer_of_object t = None"
    using assms(1) by (intro answer_of_object_no_brace bool_literal_no_brace)
  with assms show ?thesis by (auto simp: parse_answer_def)
qed

lemma lower_char_minus: "lower_char CHR ''-'' = CHR ''-''"
  by code_simp

lemma parse_answer_int:
  assumes "ds \<noteq> []" and "list_all is_digit ds" and "length ds \<le> max_str_digits"
    and "sg = [] \<or> sg = ''-''" and "sg @ ds = strip_fence (strip a)"
  shows "parse_answer a = Inr (JInt (if sg = [] then digits_val ds else - digits_val ds))"
proof -
  let ?t = "sg @ ds"
  from assms(1) obtain c cs where ds: "ds = c # cs" by (cases ds) auto
  with assms(2) have c: "is_digit c" by simp
  note cf = digit_facts [OF c]
  have hd: "(sg = [] \<and> ?t = c # cs) \<or> (sg = ''-'' \<and> ?t = CHR ''-'' # ds)"
    using assms(4) ds by auto
  have nb: "\<not> startswith ?t ''{''"
    using hd cf(3) by (elim disjE conjE) simp_all
  then have ao: "answer_of_object ?t = None" by (rule answer_of_object_no_brace)
  have lt: "lower ?t \<noteq> ''true''"
    using hd cf(4) by (elim disjE conjE) (simp_all add: lower_def lower_char_minus)
  have lf: "lower ?t \<noteq> ''false''"
    using hd cf(5) by (elim disjE conjE) (simp_all add: lower_def lower_char_minus)
  have "CHR ''.'' \<notin> set ds"
    using assms(2) digit_facts(2) unfolding list_all_iff by blast
  then have nd: "CHR ''.'' \<notin> set ?t"
    using assms(4) by (elim disjE) simp_all
  have dw: "dropWhile (\<lambda>c. c = CHR ''-'') ?t = ds"
    using hd ds cf(1) by (elim disjE conjE) simp_all
  have idg: "isdigit ds"
    using assms(1,2) unfolding isdigit_def list_all_iff by blast
  have mi: "mk_int neg ds = Inr (if neg then - digits_val ds else digits_val ds)" for neg
    using assms(3) by (simp add: mk_int_def)
  have pi: "py_int ?t = Inr (if sg = [] then digits_val ds else - digits_val ds)"
    using hd assms(1,2) cf(1) mi
    by (elim disjE conjE) (simp_all add: py_int_def)
  have sel: "(if CHR ''.'' \<notin> set ?t \<and> isdigit (dropWhile (\<lambda>c. c = CHR ''-'') ?t)
              then (case py_int ?t of Inr n \<Rightarrow> Some n | Inl e \<Rightarrow> None) else None)
             = Some (if sg = [] then digits_val ds else - digits_val ds)"
    using nd dw idg pi by simp
  show ?thesis
    unfolding parse_answer_def assms(5) [symmetric] Let_def ao sel
    using lt lf by simp
qed

text \<open>
  C6.  The four examples evaluate as the claim says: \<open>{"answer": 42}\<close> gives the integer
  42, \<open>true\<close> the boolean, \<open>3.14\<close> the float (the decimal \<open>314 * 10 ^ -2\<close>), \<open>hello\<close> the string.
  The order of the rules, for every solver text \<open>a\<close> with \<open>t\<close> the text after trimming and
  fence removal: when \<open>t\<close> opens with a brace, contains \<open>"answer"\<close> and decodes to an object
  with that key, the result is the value of the key, not the whole object that the generic
  JSON rule would give; when \<open>t\<close> is \<open>true\<close> or \<open>false\<close> in any letter case the result is the
  boolean; when \<open>t\<close> is an optional minus sign and digits (within the digit limit of
  \<open>int\<close>) the result is the integer, although the float pattern matches \<open>t\<close> as well.
\<close>

theorem C6_parse_answer:
  \<open>parse_answer ''{"answer": 42}'' = Inr (JInt 42)
   \<and> parse_answer ''true'' = Inr (JBool True)
   \<and> parse_answer ''3.14'' = Inr (JFloat (Dec 314 (- 2)))
   \<and> parse_answer ''hello'' = Inr (JStr ''hello'')
   \<and> (startswith t ''{'' \<and> contains ''"answer"'' t \<and> json_loads t = Inr (JObj d)
        \<and> dict_get d ''answer'' = Some v \<and> t = strip_fence (strip a)
      \<longrightarrow> parse_answer a = Inr v)
   \<and> ((lower t = ''true'' \<or> lower t = ''false'') \<and> t = strip_fence (strip a)
      \<longrightarrow> parse_answer a = Inr (JBool (lower t = ''true'')))
   \<and> (ds \<noteq> [] \<and> list_all is_digit ds \<and> length ds \<le> max_str_digits
        \<and> (sg = [] \<or> sg = ''-'') \<and> sg @ ds = strip_fence (strip a)
      \<longrightarrow> parse_answer a = Inr (JInt (if sg = [] then digits_val ds else - digits_val ds))
          \<and> mseq float_pattern (sg @ ds) \<noteq> None)\<close>
proof (intro conjI impI)
  show \<open>parse_answer ''{"answer": 42}'' = Inr (JInt 42)\<close> by code_simp
  show "parse_answer ''true'' = Inr (JBool True)" by code_simp
  show "parse_answer ''3.14'' = Inr (JFloat (Dec 314 (- 2)))" by code_simp
  show "parse_answer ''hello'' = Inr (JStr ''hello'')" by code_simp
next
  assume \<open>startswith t ''{'' \<and> contains ''"answer"'' t \<and> json_loads t = Inr (JObj d)
        \<and> dict_get d ''answer'' = Some v \<and> t = strip_fence (strip a)\<close>
  then show "parse_answer a = Inr v"
    by (intro parse_answer_object [of t d v a]) blast+
next
  assume "(lower t = ''true'' \<or> lower t = ''false'') \<and> t = strip_fence (strip a)"
  then show "parse_answer a = Inr (JBool (lower t = ''true''))"
    using parse_answer_bool by blast
next
  assume "ds \<noteq> [] \<and> list_all is_digit ds \<and> length ds \<le> max_str_digits
        \<and> (sg = [] \<or> sg = ''-'') \<and> sg @ ds = strip_fence (strip a)"
  then show "parse_answer a = Inr (JInt (if sg = [] then digits_val ds else - digits_val ds))"
    using parse_answer_int by blast
next
  assume "ds \<noteq> [] \<and> list_all is_digit ds \<and> length ds \<le> max_str_digits
        \<and> (sg = [] \<or> sg = ''-'') \<and> sg @ ds = strip_fence (strip a)"
  then show "mseq float_pattern (sg @ ds) \<noteq> None"
    using float_pattern_digits by blast
qed

theorem C6_parse_answer_witness:
  \<open>parse_answer '' {"answer": [1, 2], "note": "x"} '' = Inr (JArr [JInt 1, JInt 2])
   \<and> parse_answer ''False'' = Inr (JBool False)
   \<and> parse_answer ''-17'' = Inr (JInt (- 17))
   \<and> mseq float_pattern ''-17'' \<noteq> None\<close>
proof -
  have s1: \<open>strip_fence (strip '' {"answer": [1, 2], "note": "x"} '')
              = ''{"answer": [1, 2], "note": "x"}''\<close>
    by code_simp
  have j1: \<open>json_loads ''{"answer": [1, 2], "note": "x"}''
              = Inr (JObj [(''answer'', JArr [JInt 1, JInt 2]), (''note'', JStr ''x'')])\<close>
    by code_simp
  have c1: \<open>contains ''"answer"'' ''{"answer": [1, 2], "note": "x"}''\<close> by code_simp
  have s2: "strip_fence (strip ''False'') = ''False''" by code_simp
  have l2: "lower ''False'' = ''false''" by code_simp
  have s3: "strip_fence (strip ''-17'') = ''-17''" by code_simp
  have d3: "list_all is_digit ''17''" by code_simp
  have v3: "digits_val ''17'' = 17" by code_simp
  have m3: "length ''17'' \<le> max_str_digits" by (simp add: max_str_digits_def)
  from C6_parse_answer
         [of \<open>''{"answer": [1, 2], "note": "x"}''\<close>
             "[(''answer'', JArr [JInt 1, JInt 2]), (''note'', JStr ''x'')]"
             "JArr [JInt 1, JInt 2]" \<open>'' {"answer": [1, 2], "note": "x"} ''\<close>]
       s1 j1 c1
  have r1: \<open>parse_answer '' {"answer": [1, 2], "note": "x"} '' = Inr (JArr [JInt 1, JInt 2])\<close>
    by simp
  from C6_parse_answer [of "''False''" _ _ "''False''"] s2 l2
  have r2: "parse_answer ''False'' = Inr (JBool False)" by simp
  from C6_parse_answer [of _ _ _ "''-17''" "''17''" "''-''"] s3 d3 v3 m3
  have r3: "parse_answer ''-17'' = Inr (JInt (- 17)) \<and> mseq float_pattern ''-17'' \<noteq> None"
    by simp
  from r1 r2 r3 show ?thesis by simp
qed

section \<open>Claims about answer submission\<close>

lemma submit_answer_post_ok:
  assumes "http_post E log sub_url (payload email secret quiz_url answer) = Inr resp"
  shows "submit_answer E email secret sub_url quiz_url answer log =
           ((case result_of_response resp of
               Inr r \<Rightarrow> Inr r
             | Inl e \<Rightarrow> Inr \<lparr>correct = False, url = None, reason = Some (exc_text E e)\<rparr>),
            log @ [Post sub_url (payload email secret quiz_url answer)])"
  using assms
  by (simp add: submit_answer_def io_bind_def perform_def io_lift_def split: sum.splits)

lemma submit_answer_post_raises:
  assumes "http_post E log sub_url (payload email secret quiz_url answer) = Inl e"
  shows "submit_answer E email secret sub_url quiz_url answer log =
           (Inr \<lparr>correct = False, url = None, reason = Some (exc_text E e)\<rparr>,
            log @ [Post sub_url (payload email secret quiz_url answer)])"
  using assms
  by (simp add: submit_answer_def io_bind_def perform_def)

lemma submit_answer_total:
  "\<exists>r. submit_answer E email secret sub_url quiz_url answer log =
         (Inr r, log @ [Post sub_url (payload email secret quiz_url answer)])"
proof (cases "http_post E log sub_url (payload email secret quiz_url answer)")
  case (Inl e)
  then show ?thesis using submit_answer_post_raises by blast
next
  case (Inr resp)
  then show ?thesis
    using submit_answer_post_ok [of E log sub_url email secret quiz_url answer resp]
    by (cases "result_of_response resp") auto
qed

lemma validate_opt_str_text:
  "text_or_absent v \<Longrightarrow> validate_opt_str v = Inr (field_text v)"
  by (auto simp: text_or_absent_def validate_opt_str_def field_text_def
           split: option.splits json.splits)

lemma result_of_response_verdict:
  assumes "status_code resp = 200" and "json_loads (body resp) = Inr (JObj data)"
    and "(dict_get data ''correct'' = None \<and> \<not> c) \<or> dict_get data ''correct'' = Some (JBool c)"
    and "text_or_absent (dict_get data ''url'')"
    and "text_or_absent (dict_get data ''reason'')"
  shows "result_of_response resp =
           Inr \<lparr>correct = c, url = field_text (dict_get data ''url''),
                reason = field_text (dict_get data ''reason'')\<rparr>"
proof -
  have v: "validate_bool (case dict_get data ''correct'' of None \<Rightarrow> JBool False | Some v \<Rightarrow> v)
             = Inr c"
    using assms(3) by (auto simp: validate_bool_def)
  show ?thesis
    unfolding result_of_response_def
    using assms(1,2) v validate_opt_str_text [OF assms(4)] validate_opt_str_text [OF assms(5)]
    by simp
qed

text \<open>
  C4.  Every call of \<open>submit_answer\<close> makes exactly one request, a POST of the object
  with the items \<open>email\<close>, \<open>secret\<close>, \<open>url\<close>, \<open>answer\<close> in that order, and nothing else:
  it never retries.  When the response has status 200 and its body is a JSON object whose
  \<open>correct\<close> is a boolean or missing and whose \<open>url\<close> and \<open>reason\<close> are strings, \<open>null\<close> or
  missing, the result carries these three fields, a missing \<open>correct\<close> being false.  When
  the status is not 200 the result is incorrect, without next URL, with the reason
  \<open>HTTP status: body\<close>.  When the request raises, the result is incorrect, without next
  URL, with the text of the exception as reason.
\<close>

theorem C4_submit_answer:
  "snd (submit_answer E email secret sub_url quiz_url answer log)
     = log @ [Post sub_url (JObj [(''email'', JStr email), (''secret'', JStr secret),
                                  (''url'', JStr quiz_url), (''answer'', answer)])]
   \<and> (http_post E log sub_url (payload email secret quiz_url answer) = Inr resp
        \<and> status_code resp = 200 \<and> json_loads (body resp) = Inr (JObj data)
        \<and> ((dict_get data ''correct'' = None \<and> \<not> c) \<or> dict_get data ''correct'' = Some (JBool c))
        \<and> text_or_absent (dict_get data ''url'') \<and> text_or_absent (dict_get data ''reason'')
      \<longrightarrow> fst (submit_answer E email secret sub_url quiz_url answer log)
            = Inr \<lparr>correct = c, url = field_text (dict_get data ''url''),
                   reason = field_text (dict_get data ''reason'')\<rparr>)
   \<and> (http_post E log sub_url (payload email secret quiz_url answer) = Inr resp
        \<and> status_code resp \<noteq> 200
      \<longrightarrow> fst (submit_answer E email secret sub_url quiz_url answer log)
            = Inr \<lparr>correct = False, url = None,
                   reason = Some (''HTTP '' @ str_of_int (status_code resp) @ '': ''
                                  @ body resp)\<rparr>)
   \<and> (http_post E log sub_url (payload email secret quiz_url answer) = Inl e
      \<longrightarrow> fst (submit_answer E email secret sub_url quiz_url answer log)
            = Inr \<lparr>correct = False, url = None, reason = Some (exc_text E e)\<rparr>)"
proof (intro conjI impI)
  show "snd (submit_answer E email secret sub_url quiz_url answer log)
     = log @ [Post sub_url (JObj [(''email'', JStr email), (''secret'', JStr secret),
                                  (''url'', JStr quiz_url), (''answer'', answer)])]"
    using submit_answer_total [of E email secret sub_url quiz_url answer log]
    by (auto simp: payload_def)
next
  assume a: "http_post E log sub_url (payload email secret quiz_url answer) = Inr resp
        \<and> status_code resp = 200 \<and> json_loads (body resp) = Inr (JObj data)
        \<and> ((dict_get data ''correct'' = None \<and> \<not> c) \<or> dict_get data ''correct'' = Some (JBool c))
        \<and> text_or_absent (dict_get data ''url'') \<and> text_or_absent (dict_get data ''reason'')"
  then have "result_of_response resp =
           Inr \<lparr>correct = c, url = field_text (dict_get data ''url''),
                reason = field_text (dict_get data ''reason'')\<rparr>"
    by (intro result_of_response_verdict) blast+
  moreover from a have "http_post E log sub_url (payload email secret quiz_url answer) = Inr resp"
    by blast
  ultimately show "fst (submit_answer E email secret sub_url quiz_url answer log)
            = Inr \<lparr>correct = c, url = field_text (dict_get data ''url''),
                   reason = field_text (dict_get data ''reason'')\<rparr>"
    by (simp add: submit_answer_post_ok)
next
  assume a: "http_post E log sub_url (payload email secret quiz_url answer) = Inr resp
        \<and> status_code resp \<noteq> 200"
  then have "result_of_response resp = Inr \<lparr>correct = False, url = None,
                   reason = Some (''HTTP '' @ str_of_int (status_code resp) @ '': ''
                                  @ body resp)\<rparr>"
    by (simp add: result_of_response_def)
  moreover from a have "http_post E log sub_url (payload email secret quiz_url answer) = Inr resp"
    by blast
  ultimately show "fst (submit_answer E email secret sub_url quiz_url answer log)
            = Inr \<lparr>correct = False, url = None,
                   reason = Some (''HTTP '' @ str_of_int (status_code resp) @ '': ''
                                  @ body resp)\<rparr>"
    by (simp add: submit_answer_post_ok)
next
  assume "http_post E log sub_url (payload email secret quiz_url answer) = Inl e"
  then show "fst (submit_answer E email secret sub_url quiz_url answer log)
            = Inr \<lparr>correct = False, url = None, reason = Some (exc_text E e)\<rparr>"
    by (simp add: submit_answer_post_raises)
qed

theorem C4_submit_answer_witness:
  \<open>fst (submit_answer
          (demo_env [] (\<lambda>l. Inr \<lparr>status_code = 200,
                                  body = ''{"url": "https://quiz.example/q2", "reason": null}''\<rparr>))
          ''a@b.c'' ''s3'' ''https://quiz.example/submit'' ''https://quiz.example/q1'' (JInt 42) [])
     = Inr \<lparr>correct = False, url = Some ''https://quiz.example/q2'', reason = None\<rparr>
   \<and> fst (submit_answer (demo_env [] (\<lambda>l. Inr \<lparr>status_code = 503, body = ''busy''\<rparr>))
          ''a@b.c'' ''s3'' ''https://quiz.example/submit'' ''https://quiz.example/q1'' (JInt 42) [])
     = Inr \<lparr>correct = False, url = None, reason = Some ''HTTP 503: busy''\<rparr>
   \<and> fst (submit_answer (demo_env [] (\<lambda>l. Inl (Raised ''timed out'')))
          ''a@b.c'' ''s3'' ''https://quiz.example/submit'' ''https://quiz.example/q1'' (JInt 42) [])
     = Inr \<lparr>correct = False, url = None, reason = Some ''timed out''\<rparr>\<close>
proof -
  let ?ok = \<open>\<lparr>status_code = 200,
               body = ''{"url": "https://quiz.example/q2", "reason": null}''\<rparr>\<close>
  let ?busy = "\<lparr>status_code = 503, body = ''busy''\<rparr>"
  let ?data = "[(''url'', JStr ''https://quiz.example/q2''), (''reason'', JNull)]"
  have j: "json_loads (body ?ok) = Inr (JObj ?data)" by code_simp
  have d: "dict_get ?data ''correct'' = None"
    "text_or_absent (dict_get ?data ''url'')" "text_or_absent (dict_get ?data ''reason'')"
    "field_text (dict_get ?data ''url'') = Some ''https://quiz.example/q2''"
    "field_text (dict_get ?data ''reason'') = None"
    by (simp_all add: text_or_absent_def field_text_def)
  have s: "str_of_int 503 = ''503''" by code_simp
  have r1: "fst (submit_answer (demo_env [] (\<lambda>l. Inr ?ok))
          ''a@b.c'' ''s3'' ''https://quiz.example/submit'' ''https://quiz.example/q1'' (JInt 42) [])
     = Inr \<lparr>correct = False, url = Some ''https://quiz.example/q2'', reason = None\<rparr>"
    using C4_submit_answer [of "demo_env [] (\<lambda>l. Inr ?ok)" "''a@b.c''" "''s3''"
        "''https://quiz.example/submit''" "''https://quiz.example/q1''" "JInt 42" "[]"
        ?ok ?data False] j d
    by (simp add: demo_env_def)
  have r2: "fst (submit_answer (demo_env [] (\<lambda>l. Inr ?busy))
          ''a@b.c'' ''s3'' ''https://quiz.example/submit'' ''https://quiz.example/q1'' (JInt 42) [])
     = Inr \<lparr>correct = False, url = None, reason = Some ''HTTP 503: busy''\<rparr>"
    using C4_submit_answer [of "demo_env [] (\<lambda>l. Inr ?busy)" "''a@b.c''" "''s3''"
        "''https://quiz.example/submit''" "''https://quiz.example/q1''" "JInt 42" "[]"
        ?busy] s
    by (simp add: demo_env_def)
  have r3: "fst (submit_answer (demo_env [] (\<lambda>l. Inl (Raised ''timed out'')))
          ''a@b.c'' ''s3'' ''https://quiz.example/submit'' ''https://quiz.example/q1'' (JInt 42) [])
     = Inr \<lparr>correct = False, url = None, reason = Some ''timed out''\<rparr>"
    using C4_submit_answer [of "demo_env [] (\<lambda>l. Inl (Raised ''timed out''))" "''a@b.c''" "''s3''"
        "''https://quiz.example/submit''" "''https://quiz.example/q1''" "JInt 42" "[]"
        _ _ _ "Raised ''timed out''"]
    by (simp add: demo_env_def)
  from r1 r2 r3 show ?thesis by simp
qed



section \<open>Facts about the orchestrator\<close>

lemma emits_return: "emits P (io_return a)"
  by (simp add: emits_def io_return_def)

lemma emits_lift: "emits P (io_lift r)"
  by (simp add: emits_def io_lift_def)

lemma emits_perform: "P c \<Longrightarrow> emits P (perform c oracle)"
  by (simp add: emits_def perform_def)

lemma emits_bind:
  assumes "emits P m" and "\<And>a. emits P (f a)"
  shows "emits P (io_bind m f)"
  unfolding emits_def
proof
  fix log
  from assms(1) obtain ev where ev: "snd (m log) = log @ ev" "list_all P ev"
    unfolding emits_def by blast
  show "\<exists>ev. snd (io_bind m f log) = log @ ev \<and> list_all P ev"
  proof (cases "m log")
    case (Pair r log1)
    with ev have l1: "log1 = log @ ev" by simp
    show ?thesis
    proof (cases r)
      case (Inl e)
      with Pair ev show ?thesis by (auto simp: io_bind_def)
    next
      case (Inr a)
      from assms(2) [of a] obtain ev2 where ev2: "snd (f a log1) = log1 @ ev2" "list_all P ev2"
        unfolding emits_def by blast
      with Pair Inr l1 ev(2) have "snd (io_bind m f log) = log @ (ev @ ev2) \<and> list_all P (ev @ ev2)"
        by (simp add: io_bind_def)
      then show ?thesis by blast
    qed
  qed
qed

lemma emits_if: "emits P m \<Longrightarrow> emits P n \<Longrightarrow> emits P (if b then m else n)"
  by simp

lemma aside_calls:
  "aside (Completion r)" "aside (GetElement u)" "aside (PdfSolve q d)" "aside (DataSolve q dl h)"
  by (simp_all add: aside_def is_render_def is_post_def)

lemma emits_analyze_with_vision: "emits aside (analyze_with_vision E shot prompt)"
  unfolding analyze_with_vision_def
  by (intro emits_bind emits_perform emits_return aside_calls)

lemma emits_analyze_quiz: "emits aside (analyze_quiz E q context)"
  unfolding analyze_quiz_def Let_def
  by (intro emits_bind emits_perform emits_lift aside_calls)

lemma emits_solve_with_vision: "emits aside (solve_with_vision E qc shot)"
  unfolding solve_with_vision_def
  by (intro emits_bind emits_analyze_with_vision emits_lift)

lemma emits_solve_scraping_task: "emits aside (solve_scraping_task E qc base shot)"
proof (cases "first_scrape_url scrape_patterns (question qc @ raw_html qc)")
  case None
  then show ?thesis by (simp add: solve_scraping_task_def emits_solve_with_vision)
next
  case (Some u)
  then show ?thesis
    unfolding solve_scraping_task_def
    by (simp del: append.simps)
       (intro emits_bind emits_lift emits_perform emits_analyze_quiz aside_calls)
qed

lemma emits_solve_by_type: "emits aside (solve_by_type E qc shot base)"
  unfolding solve_by_type_def solve_api_task_def Let_def
  by (intro emits_if emits_bind emits_lift emits_return emits_perform emits_analyze_with_vision
        emits_analyze_quiz emits_solve_with_vision emits_solve_scraping_task aside_calls)

lemma emitsD:
  assumes "emits P m" and "m log = (r, log')"
  shows "\<exists>ev. log' = log @ ev \<and> list_all P ev"
  using assms unfolding emits_def by (metis snd_conv)

lemma count_calls_append: "count_calls P (a @ b) = count_calls P a + count_calls P b"
  by (simp add: count_calls_def)

lemma count_aside:
  "list_all aside ev \<Longrightarrow> count_calls is_render ev = 0 \<and> count_calls is_post ev = 0"
  by (induction ev) (auto simp: count_calls_def aside_def)

lemma solve_with_vision_ok:
  assumes "completion E log (ImageRequest shot (vision_prompt (question qc))) = Inr content"
  shows "solve_with_vision E qc shot log =
           (parse_answer (strip content),
            log @ [Completion (ImageRequest shot (vision_prompt (question qc)))])"
  using assms
  by (simp add: solve_with_vision_def analyze_with_vision_def io_bind_def perform_def
        io_return_def io_lift_def)

lemma solve_with_vision_raises:
  assumes "completion E log (ImageRequest shot (vision_prompt (question qc))) = Inl e"
  shows "solve_with_vision E qc shot log =
           (Inl e, log @ [Completion (ImageRequest shot (vision_prompt (question qc)))])"
  using assms
  by (simp add: solve_with_vision_def analyze_with_vision_def io_bind_def perform_def)

lemma step_after_parse:
  assumes "render E log quiz_url = Inr (html, shot)"
    and "qc = parse_quiz_page E html quiz_url" and "submission_url qc \<noteq> []"
    and "make_absolute_url (bracket_ok E) (submission_url qc) quiz_url = Inr su"
  shows "solve_single_quiz E email secret quiz_url log =
           io_bind (solve_by_type E qc shot quiz_url)
             (\<lambda>answer.
                io_bind (submit_answer E email secret su quiz_url answer)
                  (\<lambda>result.
                     if \<not> correct result \<and> url result = None then
                       io_bind (solve_with_vision E qc shot)
                         (\<lambda>answer2. submit_answer E email secret su quiz_url answer2)
                     else io_return result))
             (log @ [Render quiz_url])"
  using assms(1,3,4) unfolding assms(2)
  by (simp add: solve_single_quiz_def io_bind_def perform_def io_lift_def Let_def)


lemma step_first_verdict:
  assumes "render E log quiz_url = Inr (html, shot)"
    and "qc = parse_quiz_page E html quiz_url" and "submission_url qc \<noteq> []"
    and "make_absolute_url (bracket_ok E) (submission_url qc) quiz_url = Inr su"
    and "solve_by_type E qc shot quiz_url (log @ [Render quiz_url]) = (Inr answer, log2)"
    and "submit_answer E email secret su quiz_url answer log2 = (Inr r1, log3)"
  shows "solve_single_quiz E email secret quiz_url log =
           (if \<not> correct r1 \<and> url r1 = None then
              io_bind (solve_with_vision E qc shot)
                (\<lambda>answer2. submit_answer E email secret su quiz_url answer2) log3
            else (Inr r1, log3))"
  unfolding step_after_parse [OF assms(1-4)]
  using assms(5,6) by (simp add: io_bind_def io_return_def)

section \<open>Claims about the single step\<close>

text \<open>
  C2.  Take a step that has fetched and parsed its page, computed a first answer and
  received the first verdict \<open>r1\<close>, the log standing at \<open>log3\<close>.  When \<open>r1\<close> is incorrect and
  carries no next URL, the step asks the visual analysis once, with the screenshot and the
  question, whatever the category of the page, and, the analysis returning an answer,
  submits that answer once: the log grows by exactly these two calls and the step ends
  with the second verdict, whatever it says.  (Were the analysis to raise, its call would
  be the only one added and the exception would leave the step.)  When \<open>r1\<close> is correct or
  carries a next URL, the step ends with \<open>r1\<close> and no further call.
\<close>

theorem C2_single_retry:
  assumes "render E log quiz_url = Inr (html, shot)"
    and "qc = parse_quiz_page E html quiz_url" and "submission_url qc \<noteq> []"
    and "make_absolute_url (bracket_ok E) (submission_url qc) quiz_url = Inr su"
    and "solve_by_type E qc shot quiz_url (log @ [Render quiz_url]) = (Inr answer, log2)"
    and "submit_answer E email secret su quiz_url answer log2 = (Inr r1, log3)"
  shows "(\<not> correct r1 \<and> url r1 = None
          \<and> completion E log3 (ImageRequest shot (vision_prompt (question qc))) = Inr content
          \<and> parse_answer (strip content) = Inr answer2
        \<longrightarrow> (\<exists>r2. solve_single_quiz E email secret quiz_url log =
                    (Inr r2, log3 @ [Completion (ImageRequest shot (vision_prompt (question qc))),
                                     Post su (payload email secret quiz_url answer2)])
                  \<and> fst (submit_answer E email secret su quiz_url answer2
                           (log3 @ [Completion (ImageRequest shot (vision_prompt (question qc)))]))
                    = Inr r2))
       \<and> (\<not> correct r1 \<and> url r1 = None
          \<and> completion E log3 (ImageRequest shot (vision_prompt (question qc))) = Inl e
        \<longrightarrow> solve_single_quiz E email secret quiz_url log =
              (Inl e, log3 @ [Completion (ImageRequest shot (vision_prompt (question qc)))]))
       \<and> (correct r1 \<or> url r1 \<noteq> None
        \<longrightarrow> solve_single_quiz E email secret quiz_url log = (Inr r1, log3))"
proof (intro conjI impI)
  let ?v = "Completion (ImageRequest shot (vision_prompt (question qc)))"
  assume a: "\<not> correct r1 \<and> url r1 = None
          \<and> completion E log3 (ImageRequest shot (vision_prompt (question qc))) = Inr content
          \<and> parse_answer (strip content) = Inr answer2"
  then have v: "solve_with_vision E qc shot log3 = (Inr answer2, log3 @ [?v])"
    using solve_with_vision_ok [of E log3 shot qc content] by simp
  obtain r2 where r2: "submit_answer E email secret su quiz_url answer2 (log3 @ [?v])
                         = (Inr r2, (log3 @ [?v]) @ [Post su (payload email secret quiz_url answer2)])"
    using submit_answer_total by blast
  have "solve_single_quiz E email secret quiz_url log
          = (Inr r2, log3 @ [?v, Post su (payload email secret quiz_url answer2)])"
    unfolding step_first_verdict [OF assms] using a v r2 by (simp add: io_bind_def)
  with r2 show "\<exists>r2. solve_single_quiz E email secret quiz_url log =
                    (Inr r2, log3 @ [?v, Post su (payload email secret quiz_url answer2)])
                  \<and> fst (submit_answer E email secret su quiz_url answer2 (log3 @ [?v])) = Inr r2"
    by simp
next
  let ?v = "Completion (ImageRequest shot (vision_prompt (question qc)))"
  assume a: "\<not> correct r1 \<and> url r1 = None
          \<and> completion E log3 (ImageRequest shot (vision_prompt (question qc))) = Inl e"
  then have v: "solve_with_vision E qc shot log3 = (Inl e, log3 @ [?v])"
    using solve_with_vision_raises [of E log3 shot qc e] by simp
  show "solve_single_quiz E email secret quiz_url log = (Inl e, log3 @ [?v])"
    unfolding step_first_verdict [OF assms] using a v by (simp add: io_bind_def)
next
  assume "correct r1 \<or> url r1 \<noteq> None"
  then show "solve_single_quiz E email secret quiz_url log = (Inr r1, log3)"
    unfolding step_first_verdict [OF assms] by auto
qed

lemma demo_page:
  "parse_quiz_page (demo_env [''https://quiz.example/submit''] server) ''<html>quiz</html>'' u
     = \<lparr>question = ''What is 6 times 7?'', submission_url = ''https://quiz.example/submit'',
        download_url = None, quiz_type = ''general'',
        raw_html = ''<html>quiz</html>''\<rparr>"
  by code_simp

theorem C2_single_retry_witness:
  "solve_single_quiz (demo_env [''https://quiz.example/submit''] always_wrong)
     ''a@b.c'' ''s3'' ''https://quiz.example/q1'' []
   = (Inr \<lparr>correct = False, url = None, reason = None\<rparr>,
      [Render ''https://quiz.example/q1'',
       Completion (ImageRequest ''c2NyZWVu'' (vision_prompt ''What is 6 times 7?'')),
       Post ''https://quiz.example/submit''
         (payload ''a@b.c'' ''s3'' ''https://quiz.example/q1'' (JInt 42)),
       Completion (ImageRequest ''c2NyZWVu'' (vision_prompt ''What is 6 times 7?'')),
       Post ''https://quiz.example/submit''
         (payload ''a@b.c'' ''s3'' ''https://quiz.example/q1'' (JInt 42))])"
proof -
  let ?E = "demo_env [''https://quiz.example/submit''] always_wrong"
  let ?u = "''https://quiz.example/q1''"
  let ?su = "''https://quiz.example/submit''"
  let ?qc = "\<lparr>question = ''What is 6 times 7?'', submission_url = ?su,
        download_url = None, quiz_type = ''general'', raw_html = ''<html>quiz</html>''\<rparr>"
  let ?v = "Completion (ImageRequest ''c2NyZWVu'' (vision_prompt ''What is 6 times 7?''))"
  let ?p = "Post ?su (payload ''a@b.c'' ''s3'' ?u (JInt 42))"
  let ?r = "\<lparr>correct = False, url = None, reason = None\<rparr>"
  have h1: "render ?E [] ?u = Inr (''<html>quiz</html>'', ''c2NyZWVu'')"
    by (simp add: demo_env_def)
  have h2: "?qc = parse_quiz_page ?E ''<html>quiz</html>'' ?u" by (simp add: demo_page)
  have h3: "submission_url ?qc \<noteq> []" by simp
  have h4: "make_absolute_url (bracket_ok ?E) (submission_url ?qc) ?u = Inr ?su"
    by (simp add: make_absolute_url_def)
  have h5: "solve_by_type ?E ?qc ''c2NyZWVu'' ?u ([] @ [Render ?u]) = (Inr (JInt 42), [Render ?u, ?v])"
    by code_simp
  have h6: "submit_answer ?E ''a@b.c'' ''s3'' ?su ?u (JInt 42) [Render ?u, ?v]
              = (Inr ?r, [Render ?u, ?v, ?p])"
    by code_simp
  have h7: "completion ?E [Render ?u, ?v, ?p] (ImageRequest ''c2NyZWVu'' (vision_prompt (question ?qc)))
              = Inr '' 42 ''"
    by (simp add: demo_env_def)
  have h8: "parse_answer (strip '' 42 '') = Inr (JInt 42)" by code_simp
  have h9: "fst (submit_answer ?E ''a@b.c'' ''s3'' ?su ?u (JInt 42) ([Render ?u, ?v, ?p] @ [?v]))
              = Inr ?r"
    by code_simp
  from C2_single_retry [OF h1 h2 h3 h4 h5 h6, of "'' 42 ''" "JInt 42"] h7 h8 h9
  show ?thesis by auto
qed




section \<open>Claims about the chain\<close>

lemma count_calls_Cons:
  "count_calls P (c # cs) = (if P c then 1 else 0) + count_calls P cs"
  by (simp add: count_calls_def)

lemma count_calls_Nil: "count_calls P [] = 0"
  by (simp add: count_calls_def)

lemma emits_mono: "emits P m \<Longrightarrow> (\<And>c. P c \<Longrightarrow> Q c) \<Longrightarrow> emits Q m"
  unfolding emits_def list_all_iff by blast

lemma emits_submit_answer:
  "emits (\<lambda>c. \<not> is_render c) (submit_answer E email secret su quiz_url answer)"
  unfolding emits_def
proof
  fix log
  obtain r where "submit_answer E email secret su quiz_url answer log
                    = (Inr r, log @ [Post su (payload email secret quiz_url answer)])"
    using submit_answer_total by blast
  then have "snd (submit_answer E email secret su quiz_url answer log)
               = log @ [Post su (payload email secret quiz_url answer)]
             \<and> list_all (\<lambda>c. \<not> is_render c) [Post su (payload email secret quiz_url answer)]"
    by (simp add: is_render_def)
  then show "\<exists>ev. snd (submit_answer E email secret su quiz_url answer log) = log @ ev
                  \<and> list_all (\<lambda>c. \<not> is_render c) ev"
    by blast
qed

lemma aside_not_render: "aside c \<Longrightarrow> \<not> is_render c"
  by (simp add: aside_def)

lemma emits_step_rest:
  "emits (\<lambda>c. \<not> is_render c)
     (\<lambda>log. case page of (html_content, screenshot) \<Rightarrow>
        (let qc = parse_quiz_page E html_content quiz_url
         in if submission_url qc = [] then
              io_return \<lparr>correct = False, url = None, reason = Some ''No submission URL found''\<rparr>
            else
              io_bind (io_lift (make_absolute_url (bracket_ok E) (submission_url qc) quiz_url))
                (\<lambda>sub_url.
                   io_bind (solve_by_type E qc screenshot quiz_url)
                     (\<lambda>answer.
                        io_bind (submit_answer E email secret sub_url quiz_url answer)
                          (\<lambda>result.
                             if \<not> correct result \<and> url result = None then
                               io_bind (solve_with_vision E qc screenshot)
                                 (\<lambda>answer2.
                                    submit_answer E email secret sub_url quiz_url answer2)
                             else io_return result)))) log)"
proof (cases page)
  case (Pair html_content screenshot)
  show ?thesis
    unfolding Pair prod.case Let_def
    by (intro emits_if emits_bind emits_return emits_lift emits_submit_answer
          emits_mono [OF emits_solve_by_type aside_not_render]
          emits_mono [OF emits_solve_with_vision aside_not_render])
qed

lemma step_renders:
  assumes "solve_single_quiz E email secret quiz_url log = (res, log')"
  shows "count_calls is_render log' = count_calls is_render log + 1"
proof (cases "render E log quiz_url")
  case (Inl e)
  with assms have "log' = log @ [Render quiz_url]"
    by (auto simp: solve_single_quiz_def io_bind_def perform_def)
  then show ?thesis
    by (simp add: count_calls_append count_calls_Cons count_calls_Nil is_render_def)
next
  case (Inr page)
  let ?rest = "\<lambda>log. case page of (html_content, screenshot) \<Rightarrow>
        (let qc = parse_quiz_page E html_content quiz_url
         in if submission_url qc = [] then
              io_return \<lparr>correct = False, url = None, reason = Some ''No submission URL found''\<rparr>
            else
              io_bind (io_lift (make_absolute_url (bracket_ok E) (submission_url qc) quiz_url))
                (\<lambda>sub_url.
                   io_bind (solve_by_type E qc screenshot quiz_url)
                     (\<lambda>answer.
                        io_bind (submit_answer E email secret sub_url quiz_url answer)
                          (\<lambda>result.
                             if \<not> correct result \<and> url result = None then
                               io_bind (solve_with_vision E qc screenshot)
                                 (\<lambda>answer2.
                                    submit_answer E email secret sub_url quiz_url answer2)
                             else io_return result)))) log"
  from Inr assms have "?rest (log @ [Render quiz_url]) = (res, log')"
    by (simp add: solve_single_quiz_def io_bind_def perform_def split: prod.splits)
  from emitsD [OF emits_step_rest this]
  obtain ev where "log' = (log @ [Render quiz_url]) @ ev" "list_all (\<lambda>c. \<not> is_render c) ev"
    by blast
  moreover from this(2) have "count_calls is_render ev = 0"
    by (induction ev) (auto simp: count_calls_def)
  ultimately show ?thesis
    by (simp add: count_calls_append count_calls_Cons count_calls_Nil is_render_def)
qed

lemma step_posts:
  assumes "solve_single_quiz E email secret quiz_url log = (Inr r, log')" and "truthy (url r)"
  shows "count_calls is_post log + 1 \<le> count_calls is_post log'
         \<and> count_calls is_post log' \<le> count_calls is_post log + 2"
proof -
  obtain html shot where rd: "render E log quiz_url = Inr (html, shot)"
    using assms(1)
    by (cases "render E log quiz_url")
       (auto simp: solve_single_quiz_def io_bind_def perform_def)
  define qc where "qc = parse_quiz_page E html quiz_url"
  have ne: "submission_url qc \<noteq> []"
  proof
    assume "submission_url qc = []"
    with rd assms(1) have "url r = None"
      unfolding qc_def
      by (auto simp: solve_single_quiz_def io_bind_def perform_def io_return_def Let_def)
    with assms(2) show False by (simp add: truthy_def)
  qed
  obtain su where su: "make_absolute_url (bracket_ok E) (submission_url qc) quiz_url = Inr su"
    using assms(1) rd ne unfolding qc_def
    by (cases "make_absolute_url (bracket_ok E)
                 (submission_url (parse_quiz_page E html quiz_url)) quiz_url")
       (auto simp: solve_single_quiz_def io_bind_def perform_def io_lift_def Let_def)
  note sp = step_after_parse [OF rd qc_def ne su, of email secret]
  let ?log1 = "log @ [Render quiz_url]"
  obtain ra log2 where sb: "solve_by_type E qc shot quiz_url ?log1 = (ra, log2)"
    by (cases "solve_by_type E qc shot quiz_url ?log1") auto
  from emitsD [OF emits_solve_by_type sb] obtain ev1
    where ev1: "log2 = ?log1 @ ev1" "list_all aside ev1" by blast
  obtain answer where ra: "ra = Inr answer"
    using assms(1) sb unfolding sp by (cases ra) (auto simp: io_bind_def)
  obtain r1 where s1: "submit_answer E email secret su quiz_url answer log2
                         = (Inr r1, log2 @ [Post su (payload email secret quiz_url answer)])"
    using submit_answer_total by blast
  let ?log3 = "log2 @ [Post su (payload email secret quiz_url answer)]"
  have c3: "count_calls is_post ?log3 = count_calls is_post log + 1"
    using ev1 count_aside [OF ev1(2)]
    by (simp add: count_calls_append count_calls_Cons count_calls_Nil is_render_def is_post_def)
  note fv = step_first_verdict [OF rd qc_def ne su sb [unfolded ra] s1]
  show ?thesis
  proof (cases "\<not> correct r1 \<and> url r1 = None")
    case False
    with assms(1) have "log' = ?log3" unfolding fv by auto
    with c3 show ?thesis by simp
  next
    case True
    obtain rv log4 where sv: "solve_with_vision E qc shot ?log3 = (rv, log4)"
      by (cases "solve_with_vision E qc shot ?log3") auto
    from emitsD [OF emits_solve_with_vision sv] obtain ev2
      where ev2: "log4 = ?log3 @ ev2" "list_all aside ev2" by blast
    obtain answer2 where rv: "rv = Inr answer2"
      using assms(1) True sv unfolding fv by (cases rv) (auto simp: io_bind_def)
    obtain r2 where s2: "submit_answer E email secret su quiz_url answer2 log4
                         = (Inr r2, log4 @ [Post su (payload email secret quiz_url answer2)])"
      using submit_answer_total by blast
    from assms(1) True sv rv s2
    have "log' = log4 @ [Post su (payload email secret quiz_url answer2)]"
      unfolding fv by (simp add: io_bind_def)
    then have "count_calls is_post log' = count_calls is_post log + 2"
      using ev2(1) count_aside [OF ev2(2)] c3
      by (simp add: count_calls_append count_calls_Cons count_calls_Nil is_post_def)
    then show ?thesis by simp
  qed
qed

lemma chain_loop_stop:
  assumes "\<not> (truthy (current_url st) \<and> question_count st < N)"
  shows "chain_loop E email secret N st log = (st, log)"
  by (subst chain_loop.simps) (simp only: assms if_False)

lemma chain_loop_step:
  assumes "truthy (current_url st)" and "question_count st < N"
    and "solve_single_quiz E email secret (the (current_url st)) log = (Inr r, log1)"
  shows "chain_loop E email secret N st log =
           chain_loop E email secret N
             \<lparr>current_url = url r, question_count = question_count st + 1,
               results = results st @ [r]\<rparr> log1"
  using assms by (subst chain_loop.simps) simp

lemma chain_loop_raise:
  assumes "truthy (current_url st)" and "question_count st < N"
    and "solve_single_quiz E email secret (the (current_url st)) log = (Inl e, log1)"
  shows "chain_loop E email secret N st log = (st\<lparr>question_count := question_count st + 1\<rparr>, log1)"
  using assms by (subst chain_loop.simps) simp

lemma chain_count_bounds:
  "question_count st \<le> question_count (fst (chain_loop E email secret N st log))
   \<and> (question_count st \<le> N \<longrightarrow> question_count (fst (chain_loop E email secret N st log)) \<le> N)"
proof (induction E email secret N st log rule: chain_loop.induct)
  case (1 E email secret N st log)
  show ?case
  proof (cases "truthy (current_url st) \<and> question_count st < N")
    case False
    show ?thesis unfolding chain_loop_stop [OF False] by simp
  next
    case True
    obtain res log1 where s: "solve_single_quiz E email secret (the (current_url st)) log = (res, log1)"
      by (cases "solve_single_quiz E email secret (the (current_url st)) log") auto
    show ?thesis
    proof (cases res)
      case (Inl e)
      with True s show ?thesis by (simp add: chain_loop_raise)
    next
      case (Inr r)
      from "1.IH" [OF True s [symmetric] Inr] True s Inr
      show ?thesis by (simp add: chain_loop_step)
    qed
  qed
qed

lemma chain_exact:
  "\<forall>u l. \<exists>r l'. solve_single_quiz E email secret u l = (Inr r, l') \<and> truthy (url r) \<Longrightarrow>
   truthy (current_url st) \<Longrightarrow> question_count st \<le> N \<Longrightarrow>
   chain_loop E email secret N st log = (st', log') \<Longrightarrow>
         question_count st' = N
         \<and> length (results st') = length (results st) + nat (N - question_count st)
         \<and> count_calls is_render log' = count_calls is_render log + nat (N - question_count st)
         \<and> count_calls is_post log + nat (N - question_count st) \<le> count_calls is_post log'
         \<and> count_calls is_post log' \<le> count_calls is_post log + 2 * nat (N - question_count st)"
proof (induction E email secret N st log arbitrary: st' log' rule: chain_loop.induct)
  case (1 E email secret N st log)
  note H' = "1.prems"(1)
  show ?case
  proof (cases "question_count st < N")
    case False
    then have "\<not> (truthy (current_url st) \<and> question_count st < N)" by simp
    from chain_loop_stop [OF this] "1.prems"(3,4) False
    have "st' = st" "log' = log" "question_count st = N"
      by simp_all
    then show ?thesis by simp
  next
    case True
    from H' obtain r log1
      where s: "solve_single_quiz E email secret (the (current_url st)) log = (Inr r, log1)"
        and t: "truthy (url r)"
      by blast
    let ?st1 = "\<lparr>current_url = url r, question_count = question_count st + 1,
                 results = results st @ [r]\<rparr>"
    have c: "chain_loop E email secret N ?st1 log1 = (st', log')"
      using chain_loop_step [OF "1.prems"(2) True s] "1.prems"(4) by simp
    have ih: "question_count st' = N
         \<and> length (results st') = length (results ?st1) + nat (N - question_count ?st1)
         \<and> count_calls is_render log' = count_calls is_render log1 + nat (N - question_count ?st1)
         \<and> count_calls is_post log1 + nat (N - question_count ?st1) \<le> count_calls is_post log'
         \<and> count_calls is_post log' \<le> count_calls is_post log1 + 2 * nat (N - question_count ?st1)"
      using "1.IH" [OF conjI [OF "1.prems"(2) True] s [symmetric] refl H' _ _ c] t True
      by simp
    have n: "nat (N - question_count st) = Suc (nat (N - (question_count st + 1)))"
      using True by simp
    from ih step_renders [OF s] step_posts [OF s t] n
    show ?thesis by simp
  qed
qed

lemma initial_chain_count: "question_count (initial_chain initial_url) = 0"
  by (simp add: initial_chain_def)

lemma demo_step:
  "solve_single_quiz (demo_env [''https://quiz.example/submit''] always_next) ''a@b.c'' ''s3'' u l
     = (Inr \<lparr>correct = True, url = Some ''https://quiz.example/next'', reason = None\<rparr>,
        ((l @ [Render u])
          @ [Completion (ImageRequest ''c2NyZWVu'' (vision_prompt ''What is 6 times 7?''))])
          @ [Post ''https://quiz.example/submit'' (payload ''a@b.c'' ''s3'' u (JInt 42))])"
  by code_simp

text \<open>
  C3.  The loop of the chain, from a state \<open>st\<close> with limit \<open>N\<close>.  When the current URL
  is empty or absent, or the counter has reached \<open>N\<close>, nothing more happens.  When a cycle
  runs and its step ends with a verdict \<open>r\<close>, a further cycle follows exactly when the next
  URL of \<open>r\<close> is present and not empty and the counter, now one higher, is below \<open>N\<close>; whether
  \<open>r\<close> is correct plays no part.  From the initial state the counter never exceeds a limit
  \<open>N \<ge> 0\<close>, the default limit being 20.  And when every step ends with a verdict that
  carries a next URL, the chain started on a non-empty URL runs exactly \<open>N\<close> cycles: the
  counter ends at \<open>N\<close>, \<open>N\<close> results are recorded, \<open>N\<close> pages are fetched, and between \<open>N\<close> and
  \<open>2 N\<close> answers are submitted.
\<close>

theorem C3_chain_loop:
  "(\<not> (truthy (current_url st) \<and> question_count st < N)
      \<longrightarrow> chain_loop E email secret N st log = (st, log))
   \<and> (truthy (current_url st) \<and> question_count st < N
        \<and> solve_single_quiz E email secret (the (current_url st)) log = (Inr r, log1)
      \<longrightarrow> (question_count st + 1 < question_count (fst (chain_loop E email secret N st log)))
            = (truthy (url r) \<and> question_count st + 1 < N))
   \<and> (0 \<le> N
      \<longrightarrow> question_count (fst (chain_loop E email secret N (initial_chain initial_url) log)) \<le> N)
   \<and> question_count
         (fst (chain_loop E email secret default_max_questions (initial_chain initial_url) log))
       \<le> 20
   \<and> ((\<forall>u l. \<exists>r l'. solve_single_quiz E email secret u l = (Inr r, l') \<and> truthy (url r))
        \<and> initial_url \<noteq> [] \<and> 0 \<le> N
      \<longrightarrow> question_count (fst (chain_loop E email secret N (initial_chain initial_url) log)) = N
          \<and> length (results (fst (chain_loop E email secret N (initial_chain initial_url) log)))
              = nat N
          \<and> count_calls is_render (snd (chain_loop E email secret N (initial_chain initial_url) log))
              = count_calls is_render log + nat N
          \<and> count_calls is_post log + nat N
              \<le> count_calls is_post (snd (chain_loop E email secret N (initial_chain initial_url) log))
          \<and> count_calls is_post (snd (chain_loop E email secret N (initial_chain initial_url) log))
              \<le> count_calls is_post log + 2 * nat N)"
proof (intro conjI impI)
  assume "\<not> (truthy (current_url st) \<and> question_count st < N)"
  then show "chain_loop E email secret N st log = (st, log)" by (rule chain_loop_stop)
next
  assume a: "truthy (current_url st) \<and> question_count st < N
        \<and> solve_single_quiz E email secret (the (current_url st)) log = (Inr r, log1)"
  let ?st1 = "\<lparr>current_url = url r, question_count = question_count st + 1,
               results = results st @ [r]\<rparr>"
  from a have e: "chain_loop E email secret N st log = chain_loop E email secret N ?st1 log1"
    by (intro chain_loop_step) blast+
  show "(question_count st + 1 < question_count (fst (chain_loop E email secret N st log)))
            = (truthy (url r) \<and> question_count st + 1 < N)"
  proof (cases "truthy (url r) \<and> question_count st + 1 < N")
    case False
    then have "chain_loop E email secret N ?st1 log1 = (?st1, log1)"
      by (intro chain_loop_stop) simp
    with e False show ?thesis by simp
  next
    case True
    obtain res log2
      where s: "solve_single_quiz E email secret (the (current_url ?st1)) log1 = (res, log2)"
      by (cases "solve_single_quiz E email secret (the (current_url ?st1)) log1") auto
    have "question_count st + 2 \<le> question_count (fst (chain_loop E email secret N ?st1 log1))"
    proof (cases res)
      case (Inl x)
      with True s have "chain_loop E email secret N ?st1 log1
                          = (?st1\<lparr>question_count := question_count ?st1 + 1\<rparr>, log2)"
        by (intro chain_loop_raise) simp_all
      then show ?thesis by simp
    next
      case (Inr r')
      let ?st2 = "\<lparr>current_url = url r', question_count = question_count ?st1 + 1,
                   results = results ?st1 @ [r']\<rparr>"
      from True s Inr have "chain_loop E email secret N ?st1 log1
                              = chain_loop E email secret N ?st2 log2"
        by (intro chain_loop_step) simp_all
      moreover have "question_count ?st2
                       \<le> question_count (fst (chain_loop E email secret N ?st2 log2))"
        using chain_count_bounds by blast
      ultimately show ?thesis by simp
    qed
    with e True show ?thesis by simp
  qed
next
  assume "0 \<le> N"
  then show "question_count (fst (chain_loop E email secret N (initial_chain initial_url) log)) \<le> N"
    using chain_count_bounds [of "initial_chain initial_url" E email secret N log]
      initial_chain_count
    by simp
next
  show "question_count
         (fst (chain_loop E email secret default_max_questions (initial_chain initial_url) log))
       \<le> 20"
    using chain_count_bounds [of "initial_chain initial_url" E email secret default_max_questions log]
      initial_chain_count
    by (simp add: default_max_questions_def)
next
  assume a: "(\<forall>u l. \<exists>r l'. solve_single_quiz E email secret u l = (Inr r, l') \<and> truthy (url r))
        \<and> initial_url \<noteq> [] \<and> 0 \<le> N"
  obtain st' log' where c: "chain_loop E email secret N (initial_chain initial_url) log = (st', log')"
    by (cases "chain_loop E email secret N (initial_chain initial_url) log") auto
  from a have H: "\<forall>u l. \<exists>r l'. solve_single_quiz E email secret u l = (Inr r, l') \<and> truthy (url r)"
    by blast
  from a have t: "truthy (current_url (initial_chain initial_url))"
    and q: "question_count (initial_chain initial_url) \<le> N"
    by (simp_all add: initial_chain_def truthy_def)
  have z: "question_count (initial_chain initial_url) = 0"
    "length (results (initial_chain initial_url)) = 0"
    by (simp_all add: initial_chain_def)
  note ex = chain_exact [OF H t q c, unfolded z]
  from ex show "question_count (fst (chain_loop E email secret N (initial_chain initial_url) log)) = N"
    by (simp add: c)
  from ex show "length (results (fst (chain_loop E email secret N (initial_chain initial_url) log)))
              = nat N"
    by (simp add: c)
  from ex show "count_calls is_render (snd (chain_loop E email secret N (initial_chain initial_url) log))
              = count_calls is_render log + nat N"
    by (simp add: c)
  from ex show "count_calls is_post log + nat N
              \<le> count_calls is_post (snd (chain_loop E email secret N (initial_chain initial_url) log))"
    by (simp add: c)
  from ex show "count_calls is_post (snd (chain_loop E email secret N (initial_chain initial_url) log))
              \<le> count_calls is_post log + 2 * nat N"
    by (simp add: c)
qed

theorem C3_chain_loop_witness:
  "question_count
     (fst (chain_loop (demo_env [''https://quiz.example/submit''] always_next) ''a@b.c'' ''s3'' 2
             (initial_chain ''https://quiz.example/q1'') [])) = 2
   \<and> length (results
       (fst (chain_loop (demo_env [''https://quiz.example/submit''] always_next) ''a@b.c'' ''s3'' 2
               (initial_chain ''https://quiz.example/q1'') []))) = 2
   \<and> count_calls is_render
       (snd (chain_loop (demo_env [''https://quiz.example/submit''] always_next) ''a@b.c'' ''s3'' 2
               (initial_chain ''https://quiz.example/q1'') [])) = 2"
proof -
  let ?E = "demo_env [''https://quiz.example/submit''] always_next"
  have t: "truthy (Some ''https://quiz.example/next'')" by (simp add: truthy_def)
  have H: "\<forall>u l. \<exists>r l'. solve_single_quiz ?E ''a@b.c'' ''s3'' u l = (Inr r, l') \<and> truthy (url r)"
    using demo_step t by simp
  have c0: "count_calls is_render [] = 0" by (simp add: count_calls_def)
  from C3_chain_loop [of _ 2 ?E "''a@b.c''" "''s3''" "[]" _ _ "''https://quiz.example/q1''"] H c0
  show ?thesis by simp
qed

end
